theory Spec2Isabelle
  imports Complex_Main "HOL-Library.Sublist" "HOL-Library.Code_Target_Nat"
begin

section \<open>Data model of the compressor (App.tsx)\<close>

text \<open>
  The component \<open>App\<close> keeps its state in React hooks and drives two external
  collaborators: the browser (media element, file reader, audio context) and the
  FFmpeg engine. The state is a record, the collaborators are parameters, every
  \<open>throw\<close>/\<open>reject\<close> is a value. JavaScript numbers that only ever hold
  integers here (bit rates, sample rates, channel counts, byte sizes) are \<open>int\<close>
  or \<open>nat\<close>; the media duration and the figures computed from it (the original
  bit rate, the estimated size, the two percentages) are JavaScript numbers, and the
  arithmetic that produces them is that of IEEE 754 doubles.
\<close>

section \<open>JavaScript numbers\<close>

text \<open>
  A JavaScript number is an IEEE 754 double (binary64): a finite value,
  \<open>Infinity\<close>, \<open>-Infinity\<close> or \<open>NaN\<close>. A finite double is given by its value.
  \<open>-0\<close> is not kept apart from \<open>0\<close>: it compares and prints as \<open>0\<close>, and no
  divisor of the program can be \<open>-0\<close> (the divisors are a duration, a byte size and
  the literal \<open>1000\<close>). The integers the program works with (byte sizes below
  \<open>2 ^ 53\<close>, bit rates) are doubles; \<open>Num\<close> of such an integer is the number it is.
\<close>

datatype number = Num real | PosInfinity | NegInfinity | NaN

text \<open>The integer nearest to the argument, the even one when two are equally near.\<close>

definition round_even :: "real \<Rightarrow> int" where
  "round_even x =
     (let f = \<lfloor>x\<rfloor>; r = x - of_int f in
      if r < 1 / 2 then f else if 1 / 2 < r then f + 1 else if even f then f else f + 1)"

text \<open>
  The binade of a positive value: the integer \<open>e\<close> with
  \<open>2 powi e \<le> x < 2 powi (e + 1)\<close>, found by halving or doubling \<open>x\<close> until it
  lies between 1 and 2.
\<close>

function binade :: "real \<Rightarrow> int" where
  "binade x =
     (if x \<le> 0 then 0
      else if 2 \<le> x then binade (x / 2) + 1
      else if x < 1 then binade (2 * x) - 1
      else 0)"
  by pat_completeness auto

termination
proof (relation "measure (\<lambda>x. nat \<lfloor>x\<rfloor> + 2 * nat \<lceil>1 / x\<rceil>)")
  show "wf (measure (\<lambda>x. nat \<lfloor>x\<rfloor> + 2 * nat \<lceil>1 / x\<rceil>))" by simp
next
  fix x :: real
  assume "\<not> x \<le> 0" and big: "2 \<le> x"
  have "\<lfloor>x / 2\<rfloor> \<le> \<lfloor>x - 1\<rfloor>" by (rule floor_mono) (use big in simp)
  then have f: "\<lfloor>x / 2\<rfloor> < \<lfloor>x\<rfloor>" by simp
  have p: "0 \<le> \<lfloor>x / 2\<rfloor>" using big by simp
  have p': "2 \<le> \<lfloor>x\<rfloor>" using big by (simp add: le_floor_iff)
  have "\<lceil>1 / (x / 2)\<rceil> = 1" by (rule ceiling_unique) (use big in simp_all)
  moreover have "\<lceil>1 / x\<rceil> = 1" by (rule ceiling_unique) (use big in simp_all)
  ultimately show "(x / 2, x) \<in> measure (\<lambda>x. nat \<lfloor>x\<rfloor> + 2 * nat \<lceil>1 / x\<rceil>)"
    using f p p' by simp
next
  fix x :: real
  assume pos: "\<not> x \<le> 0" and "\<not> 2 \<le> x" and small: "x < 1"
  have f0: "\<lfloor>x\<rfloor> = 0" by (rule floor_unique) (use pos small in simp_all)
  have f1: "\<lfloor>2 * x\<rfloor> \<le> 1" using small by (simp add: floor_le_iff)
  have f1': "0 \<le> \<lfloor>2 * x\<rfloor>" using pos by simp
  have y: "1 < 1 / x" using pos small by simp
  have "1 / (2 * x) \<le> of_int (\<lceil>1 / x\<rceil> - 1)"
  proof -
    define a where "a = 1 / x"
    have "a \<le> of_int \<lceil>a\<rceil>" by (rule le_of_int_ceiling)
    moreover have "2 \<le> \<lceil>a\<rceil>" using y by (simp add: a_def le_ceiling_iff)
    then have "(2::real) \<le> of_int \<lceil>a\<rceil>" by linarith
    ultimately have "a / 2 \<le> of_int \<lceil>a\<rceil> - 1" by linarith
    moreover have "1 / (2 * x) = a / 2" by (simp add: a_def)
    ultimately show ?thesis by (simp add: a_def)
  qed
  then have c: "\<lceil>1 / (2 * x)\<rceil> \<le> \<lceil>1 / x\<rceil> - 1" by (simp only: ceiling_le_iff)
  have c': "0 < \<lceil>1 / (2 * x)\<rceil>" using pos by simp
  have n1: "nat \<lfloor>2 * x\<rfloor> \<le> 1" using f1 by linarith
  have n2: "nat \<lceil>1 / (2 * x)\<rceil> + 1 \<le> nat \<lceil>1 / x\<rceil>" using c c' by linarith
  have "nat \<lfloor>2 * x\<rfloor> + 2 * nat \<lceil>1 / (2 * x)\<rceil> < nat \<lfloor>x\<rfloor> + 2 * nat \<lceil>1 / x\<rceil>"
    using n1 n2 by linarith
  then show "(2 * x, x) \<in> measure (\<lambda>x. nat \<lfloor>x\<rfloor> + 2 * nat \<lceil>1 / x\<rceil>)"
    by simp
qed

declare binade.simps [simp del]

text \<open>
  The exponent of the unit in the last place of the doubles around \<open>x\<close>: a double
  has a significand of 53 bits, and its exponent is at least \<open>-1022\<close> (below
  \<open>2 powi - 1022\<close> the doubles are the multiples of \<open>2 powi - 1074\<close>).
\<close>

definition quantum :: "real \<Rightarrow> int" where
  "quantum x = max (binade \<bar>x\<bar>) (- 1022) - 52"

text \<open>Rounding to nearest, ties to even, with no bound on the exponent.\<close>

definition nearest :: "real \<Rightarrow> real" where
  "nearest x =
     (if x = 0 then 0 else of_int (round_even (x / 2 powi quantum x)) * 2 powi quantum x)"

text \<open>
  The double an operation returns when its exact result is \<open>x\<close>: \<open>x\<close> rounded to
  nearest, and an infinity when that is beyond the largest double,
  \<open>2 ^ 1024 - 2 ^ 971\<close>.
\<close>

definition double :: "real \<Rightarrow> number" where
  "double x =
     (let y = nearest x in
      if 2 ^ 1024 \<le> y then PosInfinity else if y \<le> - (2 ^ 1024) then NegInfinity else Num y)"

text \<open>The operators \<open>*\<close>, \<open>/\<close> and \<open>-\<close> on numbers.\<close>

fun multiply :: "number \<Rightarrow> number \<Rightarrow> number" where
  "multiply (Num a) (Num b) = double (a * b)"
| "multiply (Num a) PosInfinity = (if a = 0 then NaN else if 0 < a then PosInfinity else NegInfinity)"
| "multiply (Num a) NegInfinity = (if a = 0 then NaN else if 0 < a then NegInfinity else PosInfinity)"
| "multiply PosInfinity (Num b) = (if b = 0 then NaN else if 0 < b then PosInfinity else NegInfinity)"
| "multiply NegInfinity (Num b) = (if b = 0 then NaN else if 0 < b then NegInfinity else PosInfinity)"
| "multiply PosInfinity PosInfinity = PosInfinity"
| "multiply PosInfinity NegInfinity = NegInfinity"
| "multiply NegInfinity PosInfinity = NegInfinity"
| "multiply NegInfinity NegInfinity = PosInfinity"
| "multiply _ _ = NaN"

fun divideBy :: "number \<Rightarrow> number \<Rightarrow> number" where
  "divideBy (Num a) (Num b) =
     (if b = 0 then (if a = 0 then NaN else if 0 < a then PosInfinity else NegInfinity)
      else double (a / b))"
| "divideBy (Num a) PosInfinity = Num 0"
| "divideBy (Num a) NegInfinity = Num 0"
| "divideBy PosInfinity (Num b) = (if 0 \<le> b then PosInfinity else NegInfinity)"
| "divideBy NegInfinity (Num b) = (if 0 \<le> b then NegInfinity else PosInfinity)"
| "divideBy _ _ = NaN"

fun subtract :: "number \<Rightarrow> number \<Rightarrow> number" where
  "subtract (Num a) (Num b) = double (a - b)"
| "subtract (Num a) PosInfinity = NegInfinity"
| "subtract (Num a) NegInfinity = PosInfinity"
| "subtract PosInfinity (Num b) = PosInfinity"
| "subtract NegInfinity (Num b) = NegInfinity"
| "subtract PosInfinity NegInfinity = PosInfinity"
| "subtract NegInfinity PosInfinity = NegInfinity"
| "subtract _ _ = NaN"

text \<open>
  \<open>Math.round\<close>: the integer nearest to the argument, the larger one when two are
  equally near; an infinity and \<open>NaN\<close> are returned as they are. The result is exact:
  the integer nearest to a double is a double.
\<close>

definition round_half_up :: "real \<Rightarrow> int" where
  "round_half_up x = (if x - of_int \<lfloor>x\<rfloor> < 1 / 2 then \<lfloor>x\<rfloor> else \<lfloor>x\<rfloor> + 1)"

fun Math_round :: "number \<Rightarrow> number" where
  "Math_round (Num x) = Num (of_int (round_half_up x))"
| "Math_round v = v"

text \<open>\<open>Math.abs\<close>, and the comparisons \<open>> 0\<close> and \<open>>= 0\<close>, false on \<open>NaN\<close>.\<close>

fun Math_abs :: "number \<Rightarrow> number" where
  "Math_abs (Num x) = Num \<bar>x\<bar>"
| "Math_abs NegInfinity = PosInfinity"
| "Math_abs v = v"

fun greaterThanZero :: "number \<Rightarrow> bool" where
  "greaterThanZero (Num x) = (0 < x)"
| "greaterThanZero PosInfinity = True"
| "greaterThanZero v = False"

fun atLeastZero :: "number \<Rightarrow> bool" where
  "atLeastZero (Num x) = (0 \<le> x)"
| "atLeastZero PosInfinity = True"
| "atLeastZero v = False"

section \<open>Records and tables\<close>

type_synonym bytes = "nat list"

text \<open>The browser's \<open>File\<close>: name, MIME type and content; \<open>File.size\<close> is the
  length of the content.\<close>

record File =
  name_file :: string
  type_file :: string
  bytes_file :: bytes

definition size_file :: "File \<Rightarrow> nat" where
  "size_file f = length (bytes_file f)"

text \<open>\<open>interface FileInfo\<close>.\<close>

record FileInfo =
  name :: string
  size_info :: nat
  duration :: number
  bitrate_info :: number
  sampleRate_info :: int
  channels_info :: int

text \<open>\<open>interface Preset\<close>; \<open>null\<close> is \<open>None\<close>.\<close>

record Preset =
  id_preset :: string
  nameKey :: string
  descKey :: string
  bitrate :: int
  sampleRate :: "int option"
  channels :: "int option"

definition presets :: "Preset list" where
  "presets =
    [\<lparr>id_preset = ''lossless'', nameKey = ''presetLossless'', descKey = ''presetLosslessDesc'',
      bitrate = 320, sampleRate = None, channels = Some 2\<rparr>,
     \<lparr>id_preset = ''high'', nameKey = ''presetHigh'', descKey = ''presetHighDesc'',
      bitrate = 256, sampleRate = Some 44100, channels = Some 2\<rparr>,
     \<lparr>id_preset = ''standard'', nameKey = ''presetStandard'', descKey = ''presetStandardDesc'',
      bitrate = 192, sampleRate = Some 44100, channels = Some 2\<rparr>,
     \<lparr>id_preset = ''medium'', nameKey = ''presetMedium'', descKey = ''presetMediumDesc'',
      bitrate = 128, sampleRate = Some 44100, channels = Some 2\<rparr>,
     \<lparr>id_preset = ''compact'', nameKey = ''presetCompact'', descKey = ''presetCompactDesc'',
      bitrate = 96, sampleRate = Some 32000, channels = Some 2\<rparr>,
     \<lparr>id_preset = ''voice'', nameKey = ''presetVoice'', descKey = ''presetVoiceDesc'',
      bitrate = 64, sampleRate = Some 22050, channels = Some 1\<rparr>,
     \<lparr>id_preset = ''minimal'', nameKey = ''presetMinimal'', descKey = ''presetMinimalDesc'',
      bitrate = 32, sampleRate = Some 16000, channels = Some 1\<rparr>,
     \<lparr>id_preset = ''custom'', nameKey = ''presetCustom'', descKey = ''presetCustomDesc'',
      bitrate = 128, sampleRate = Some 44100, channels = Some 2\<rparr>]"

definition bitrateOptions :: "int list" where
  "bitrateOptions = [320, 256, 192, 160, 128, 112, 96, 80, 64, 48, 32]"

text \<open>The \<open>value\<close> fields of \<open>sampleRateOptions\<close> and \<open>channelOptions\<close>
  (their label keys play no part in the parameters).\<close>

definition sampleRateOptions :: "int list" where
  "sampleRateOptions = [48000, 44100, 32000, 22050, 16000, 11025]"

definition channelOptions :: "int list" where
  "channelOptions = [2, 1]"

subsection \<open>Numbers as text\<close>

text \<open>\<open>Number.prototype.toString\<close> and template interpolation, on integers: the
  decimal digits, with a minus sign for a negative value.\<close>

fun natToString :: "nat \<Rightarrow> string" where
  "natToString n =
     (if n < 10 then [''0123456789'' ! n]
      else natToString (n div 10) @ [''0123456789'' ! (n mod 10)])"

declare natToString.simps [simp del]

definition toString :: "int \<Rightarrow> string" where
  "toString i = (if i < 0 then ''-'' @ natToString (nat (- i)) else natToString (nat i))"

text \<open>The same on a number. It is applied to the results of \<open>Math.round\<close> and
  \<open>Math.abs\<close> only, which are integers when they are finite.\<close>

fun numberToString :: "number \<Rightarrow> string" where
  "numberToString (Num x) = toString \<lfloor>x\<rfloor>"
| "numberToString PosInfinity = ''Infinity''"
| "numberToString NegInfinity = ''-Infinity''"
| "numberToString NaN = ''NaN''"

subsection \<open>Resolving the encode parameters\<close>

text \<open>The three values the transcode run works with.\<close>

record Params =
  bitrate_params :: int
  sampleRate_params :: "int option"
  channels_params :: "int option"

text \<open>
  Lines 256 to 261 of \<open>handleCompress\<close>:
  \<^verbatim>\<open>const preset = presets.find(p => p.id === selectedPreset)!\<close> and then, per field,
  \<^verbatim>\<open>selectedPreset === 'custom' ? customX : preset.X\<close>.
  When no preset has the selected id, \<open>preset\<close> is \<open>undefined\<close>; reading a field
  of it throws a \<open>TypeError\<close>, which happens only on the non-custom branch.
\<close>

definition typeError :: string where
  "typeError = ''Cannot read properties of undefined''"

definition resolve :: "string \<Rightarrow> int \<Rightarrow> int \<Rightarrow> int \<Rightarrow> string + Params" where
  "resolve selectedPreset customBitrate customSampleRate customChannels =
     (let preset = find (\<lambda>p. id_preset p = selectedPreset) presets in
      if selectedPreset = ''custom''
      then Inr \<lparr>bitrate_params = customBitrate,
                sampleRate_params = Some customSampleRate,
                channels_params = Some customChannels\<rparr>
      else (case preset of
              None \<Rightarrow> Inl typeError
            | Some p \<Rightarrow> Inr \<lparr>bitrate_params = bitrate p,
                              sampleRate_params = sampleRate p,
                              channels_params = channels p\<rparr>))"

text \<open>JavaScript truthiness of a \<open>number | null\<close>: \<open>null\<close> and \<open>0\<close> are falsy.\<close>

definition truthy :: "int option \<Rightarrow> bool" where
  "truthy v = (case v of None \<Rightarrow> False | Some n \<Rightarrow> n \<noteq> 0)"

text \<open>Lines 267 to 277: the argument list handed to \<open>ffmpeg.exec\<close>.\<close>

definition buildArgs :: "Params \<Rightarrow> string list" where
  "buildArgs p =
     (let args = [''-i'', ''input.mp3'', ''-b:a'', toString (bitrate_params p) @ ''k''];
          args = (if truthy (sampleRate_params p)
                  then args @ [''-ar'', toString (the (sampleRate_params p))] else args);
          args = (if truthy (channels_params p)
                  then args @ [''-ac'', toString (the (channels_params p))] else args)
      in args @ [''-map'', ''0:a'', ''-y'', ''output.mp3''])"

text \<open>
  The argument list in the words of the specification (section 4.3, Invoke), for
  comparison with \<open>buildArgs\<close>: the input reference, \<open>-b:a {bitrate}k\<close>,
  \<open>-ar {sampleRate}\<close> if the sample rate is not pass-through (\<open>null\<close>),
  \<open>-ac {channels}\<close> if the channel count is not pass-through, the
  single-audio-stream map directive, force-overwrite, the output reference.
\<close>

definition specArgs :: "Params \<Rightarrow> string list" where
  "specArgs p =
     [''-i'', ''input.mp3'', ''-b:a'', toString (bitrate_params p) @ ''k'']
     @ (case sampleRate_params p of None \<Rightarrow> [] | Some r \<Rightarrow> [''-ar'', toString r])
     @ (case channels_params p of None \<Rightarrow> [] | Some c \<Rightarrow> [''-ac'', toString c])
     @ [''-map'', ''0:a'', ''-y'', ''output.mp3'']"

section \<open>The transcode run (handleCompress)\<close>

text \<open>
  The FFmpeg engine is an external library. Its workspace is a map from file names to
  contents; each of its four asynchronous operations is a function of the workspace
  that either completes or throws (the message of the error), and leaves a workspace
  behind in both cases. \<open>readFile\<close> does not change the workspace.
\<close>

type_synonym workspace = "string \<rightharpoonup> bytes"

record Engine =
  writeFile :: "string \<Rightarrow> bytes \<Rightarrow> workspace \<Rightarrow> string option \<times> workspace"
  exec :: "string list \<Rightarrow> workspace \<Rightarrow> string option \<times> workspace"
  readFile :: "string \<Rightarrow> workspace \<Rightarrow> string + bytes"
  deleteFile :: "string \<Rightarrow> workspace \<Rightarrow> string option \<times> workspace"

text \<open>The calls made on the engine are recorded next to the workspace, in the order
  in which they complete.\<close>

datatype EngineCall =
  WriteFile string bytes
| Exec "string list"
| ReadFile string
| DeleteFile string

record World =
  files :: workspace
  calls :: "EngineCall list"

definition callWriteFile :: "Engine \<Rightarrow> string \<Rightarrow> bytes \<Rightarrow> World \<Rightarrow> string option \<times> World" where
  "callWriteFile eng n d w =
     (case writeFile eng n d (files w) of
        (e, fs) \<Rightarrow> (e, \<lparr>files = fs, calls = calls w @ [WriteFile n d]\<rparr>))"

definition callExec :: "Engine \<Rightarrow> string list \<Rightarrow> World \<Rightarrow> string option \<times> World" where
  "callExec eng args w =
     (case exec eng args (files w) of
        (e, fs) \<Rightarrow> (e, \<lparr>files = fs, calls = calls w @ [Exec args]\<rparr>))"

definition callReadFile :: "Engine \<Rightarrow> string \<Rightarrow> World \<Rightarrow> (string + bytes) \<times> World" where
  "callReadFile eng n w = (readFile eng n (files w), w\<lparr>calls := calls w @ [ReadFile n]\<rparr>)"

definition callDeleteFile :: "Engine \<Rightarrow> string \<Rightarrow> World \<Rightarrow> string option \<times> World" where
  "callDeleteFile eng n w =
     (case deleteFile eng n (files w) of
        (e, fs) \<Rightarrow> (e, \<lparr>files = fs, calls = calls w @ [DeleteFile n]\<rparr>))"

text \<open>The result of a run: \<open>{ blob, size: blob.size }\<close>.\<close>

record Result =
  blob :: bytes
  size_result :: nat

text \<open>
  The hooks of \<open>App\<close>. The fields that only feed the display of progress
  (\<open>progress\<close>, \<open>progressText\<close>, written by the engine's progress events) and of
  dragging are left out.
\<close>

record AppState =
  ffmpeg :: "Engine option"
  loaded :: bool
  loading :: bool
  "file" :: "File option"
  fileInfo :: "FileInfo option"
  selectedPreset :: string
  customBitrate :: int
  customSampleRate :: int
  customChannels :: int
  processing :: bool
  result :: "Result option"
  error :: "string option"

text \<open>The initial values of the hooks (\<open>useState\<close>).\<close>

definition initialState :: AppState where
  "initialState =
     \<lparr>ffmpeg = None, loaded = False, loading = True, file = None, fileInfo = None,
      selectedPreset = ''medium'', customBitrate = 128, customSampleRate = 44100,
      customChannels = 2, processing = False, result = None, error = None\<rparr>"

text \<open>
  The body of the \<open>try\<close> block of \<open>handleCompress\<close> (lines 256 to 293). It returns
  the message of the error thrown, if any, with the state and the world as they are
  at that point: what was written before a \<open>throw\<close> stays written. \<open>fetchFile\<close>
  (of \<open>@ffmpeg/util\<close>) reads the content of the file and may throw.
\<close>

definition compressBody ::
  "(File \<Rightarrow> string + bytes) \<Rightarrow> Engine \<Rightarrow> File \<Rightarrow> AppState \<Rightarrow> World
     \<Rightarrow> string option \<times> AppState \<times> World" where
  "compressBody fetchFile eng f s w =
     (case resolve (selectedPreset s) (customBitrate s) (customSampleRate s) (customChannels s) of
        Inl e \<Rightarrow> (Some e, s, w)
      | Inr p \<Rightarrow>
     (case fetchFile f of
        Inl e \<Rightarrow> (Some e, s, w)
      | Inr input \<Rightarrow>
     (case callWriteFile eng ''input.mp3'' input w of
        (Some e, w1) \<Rightarrow> (Some e, s, w1)
      | (None, w1) \<Rightarrow>
     (case callExec eng (buildArgs p) w1 of
        (Some e, w2) \<Rightarrow> (Some e, s, w2)
      | (None, w2) \<Rightarrow>
     (case callReadFile eng ''output.mp3'' w2 of
        (Inl e, w3) \<Rightarrow> (Some e, s, w3)
      | (Inr output, w3) \<Rightarrow>
     (let s1 = s\<lparr>result := Some \<lparr>blob = output, size_result = length output\<rparr>\<rparr> in
     (case callDeleteFile eng ''input.mp3'' w3 of
        (Some e, w4) \<Rightarrow> (Some e, s1, w4)
      | (None, w4) \<Rightarrow>
     (case callDeleteFile eng ''output.mp3'' w4 of
        (Some e, w5) \<Rightarrow> (Some e, s1, w5)
      | (None, w5) \<Rightarrow> (None, s1, w5)))))))))"

text \<open>
  \<open>handleCompress\<close> (lines 247 to 302): the guard, the state set before the
  \<open>try\<close>, the body, the \<open>catch\<close> that stores the message, and the \<open>finally\<close>
  that clears \<open>processing\<close>. \<open>t\<close> is the translation function of \<open>useI18n\<close>.
\<close>

definition handleCompress ::
  "(string \<Rightarrow> string) \<Rightarrow> (File \<Rightarrow> string + bytes) \<Rightarrow> AppState \<Rightarrow> World \<Rightarrow> AppState \<times> World" where
  "handleCompress t fetchFile s w =
     (case ffmpeg s of
        None \<Rightarrow> (s, w)
      | Some eng \<Rightarrow>
     (case file s of
        None \<Rightarrow> (s, w)
      | Some f \<Rightarrow>
        if \<not> loaded s then (s, w)
        else
          (case compressBody fetchFile eng f (s\<lparr>processing := True, error := None\<rparr>) w of
             (None, s1, w1) \<Rightarrow> (s1\<lparr>processing := False\<rparr>, w1)
           | (Some msg, s1, w1) \<Rightarrow>
               (s1\<lparr>error := Some (t ''compressionFailed'' @ '' '' @ msg), processing := False\<rparr>, w1))))"

text \<open>
  The compress button (lines 506 to 513): rendered when \<open>file && !result\<close>,
  \<open>disabled={processing || !loaded}\<close>; a click on a disabled button runs no handler.
\<close>

definition compressBtnRendered :: "AppState \<Rightarrow> bool" where
  "compressBtnRendered s = (file s \<noteq> None \<and> result s = None)"

definition compressBtnDisabled :: "AppState \<Rightarrow> bool" where
  "compressBtnDisabled s = (processing s \<or> \<not> loaded s)"

definition clickCompressBtn ::
  "(string \<Rightarrow> string) \<Rightarrow> (File \<Rightarrow> string + bytes) \<Rightarrow> AppState \<Rightarrow> World \<Rightarrow> AppState \<times> World" where
  "clickCompressBtn t fetchFile s w =
     (if compressBtnRendered s \<and> \<not> compressBtnDisabled s
      then handleCompress t fetchFile s w else (s, w))"

text \<open>
  The three \<open>select\<close> controls of the custom preset (lines 436 to 478). A
  \<open>select\<close> takes its value from one of its \<open>option\<close> children, here the entries
  of the option lists, so the choice is an index into the list; the controls exist
  while the custom preset is selected and are disabled when \<open>!file || !!result\<close>.
\<close>

definition customControlsEnabled :: "AppState \<Rightarrow> bool" where
  "customControlsEnabled s =
     (selectedPreset s = ''custom'' \<and> \<not> (file s = None \<or> result s \<noteq> None))"

definition selectCustomBitrate :: "nat \<Rightarrow> AppState \<Rightarrow> AppState" where
  "selectCustomBitrate i s =
     (if customControlsEnabled s \<and> i < length bitrateOptions
      then s\<lparr>customBitrate := bitrateOptions ! i\<rparr> else s)"

definition selectCustomSampleRate :: "nat \<Rightarrow> AppState \<Rightarrow> AppState" where
  "selectCustomSampleRate i s =
     (if customControlsEnabled s \<and> i < length sampleRateOptions
      then s\<lparr>customSampleRate := sampleRateOptions ! i\<rparr> else s)"

definition selectCustomChannels :: "nat \<Rightarrow> AppState \<Rightarrow> AppState" where
  "selectCustomChannels i s =
     (if customControlsEnabled s \<and> i < length channelOptions
      then s\<lparr>customChannels := channelOptions ! i\<rparr> else s)"

text \<open>The three custom values are among the values their controls offer.\<close>

definition customLegal :: "AppState \<Rightarrow> bool" where
  "customLegal s =
     (customBitrate s \<in> set bitrateOptions \<and> customSampleRate s \<in> set sampleRateOptions
      \<and> customChannels s \<in> set channelOptions)"

section \<open>Metadata extraction (parseAudioInfo)\<close>

text \<open>
  Line 172: \<^verbatim>\<open>Math.round((audioFile.size * 8) / duration / 1000)\<close>: a product and
  two quotients, each rounded to a double, then \<open>Math.round\<close>. With a zero duration
  the result is \<open>Infinity\<close>, or \<open>NaN\<close> for an empty file.
\<close>

definition originalBitrate :: "nat \<Rightarrow> number \<Rightarrow> number" where
  "originalBitrate sz d =
     Math_round (divideBy (divideBy (multiply (Num (real sz)) (Num 8)) d) (Num 1000))"

text \<open>
  The browser, as \<open>parseAudioInfo\<close> sees it: the audio element fires
  \<open>loadedmetadata\<close> with a duration or \<open>error\<close>; the file reader fires \<open>load\<close>
  with the content or \<open>error\<close>; \<open>decodeAudioData\<close> resolves with a buffer (its
  sample rate and number of channels) or rejects. The duration is a number of
  seconds, \<open>Infinity\<close> for a medium without a known end.
\<close>

record Browser =
  loadMetadata :: "File \<Rightarrow> number option"
  readAsArrayBuffer :: "File \<Rightarrow> bytes option"
  decodeAudioData :: "bytes \<Rightarrow> (int \<times> int) option"

text \<open>The temporary resources the function opens: the object URL of the file
  (\<open>URL.createObjectURL\<close>, released by \<open>URL.revokeObjectURL\<close>) and the audio
  context (\<open>new AudioContext()\<close>, released by \<open>close()\<close>).\<close>

datatype Resource = ObjectURL | AudioCtx

text \<open>
  \<open>parseAudioInfo\<close> (lines 165 to 217). The result is how the promise settles
  (\<open>Inl\<close>: rejected with the message) and the resources still open when the
  handler that settles it has run to its end, in the order they were opened. (On the
  branch where the decode succeeds, \<open>audioContext.close()\<close> is the statement after
  \<open>resolve\<close>, in the same handler; a resource counts as released once its release
  has been called.)
\<close>

definition parseAudioInfo ::
  "(string \<Rightarrow> string) \<Rightarrow> Browser \<Rightarrow> File \<Rightarrow> (string + FileInfo) \<times> Resource list" where
  "parseAudioInfo t env audioFile =
     (let opened = [ObjectURL] in
      case loadMetadata env audioFile of
        None \<Rightarrow> (Inl (t ''cannotParseAudio''), remove1 ObjectURL opened)
      | Some d \<Rightarrow>
          (let br = originalBitrate (size_file audioFile) d;
               opened = opened @ [AudioCtx];
               opened = remove1 ObjectURL opened
           in case readAsArrayBuffer env audioFile of
                None \<Rightarrow> (Inl (t ''cannotReadFile''), opened)
              | Some arrayBuffer \<Rightarrow>
                  (case decodeAudioData env arrayBuffer of
                     Some (rate, chans) \<Rightarrow>
                       (Inr \<lparr>name = name_file audioFile, size_info = size_file audioFile,
                             duration = d, bitrate_info = br,
                             sampleRate_info = rate, channels_info = chans\<rparr>,
                        remove1 AudioCtx opened)
                   | None \<Rightarrow>
                       (Inr \<lparr>name = name_file audioFile, size_info = size_file audioFile,
                             duration = d, bitrate_info = br,
                             sampleRate_info = 44100, channels_info = 2\<rparr>,
                        opened))))"

section \<open>Estimate and result figures\<close>

text \<open>Line 495: \<^verbatim>\<open>Math.round(bitrate * 125 * fileInfo.duration)\<close>.\<close>

definition estimatedSize :: "int \<Rightarrow> number \<Rightarrow> number" where
  "estimatedSize br d = Math_round (multiply (multiply (Num (of_int br)) (Num 125)) d)"

text \<open>
  Line 496: \<^verbatim>\<open>Math.round((1 - estimatedSize / fileInfo.size) * 100)\<close>, and line 538,
  the same expression on \<open>result.size\<close>. A zero \<open>fileInfo.size\<close> gives
  \<open>-Infinity\<close>, or \<open>NaN\<close> when the dividend is zero too.
\<close>

definition compressionRatio :: "number \<Rightarrow> nat \<Rightarrow> number" where
  "compressionRatio est sz =
     Math_round (multiply (subtract (Num 1) (divideBy est (Num (real sz)))) (Num 100))"

definition savedPercent :: "nat \<Rightarrow> nat \<Rightarrow> number" where
  "savedPercent out sz =
     Math_round (multiply (subtract (Num 1) (divideBy (Num (real out)) (Num (real sz)))) (Num 100))"

text \<open>Line 500: the class and the text of the estimated ratio.\<close>

definition ratioDisplay :: "number \<Rightarrow> string \<times> string" where
  "ratioDisplay r =
     (if greaterThanZero r then ''positive'' else ''negative'',
      if greaterThanZero r then ''-'' @ numberToString r @ ''%''
      else ''+'' @ numberToString (Math_abs r) @ ''%'')"

text \<open>Lines 539 to 549: the label, the class and the text of the achieved saving.\<close>

definition savedDisplay :: "(string \<Rightarrow> string) \<Rightarrow> number \<Rightarrow> string \<times> string \<times> string" where
  "savedDisplay t saved =
     (if atLeastZero saved then (t ''saved'', ''stat-value highlight'', numberToString saved @ ''%'')
      else (t ''increased'', ''stat-value negative'', numberToString (Math_abs saved) @ ''%''))"

text \<open>
  The estimate block (lines 492 to 503): rendered when
  \<open>file && fileInfo && !result && !processing\<close>; the bit rate is resolved as in
  \<open>handleCompress\<close>. The block is given by the estimated size (shown through
  \<open>formatFileSize\<close>) and by the class and the text of the ratio. \<open>None\<close>: nothing
  is rendered, or the render throws (no preset has the selected id).
\<close>

definition estimateBlock :: "AppState \<Rightarrow> (number \<times> string \<times> string) option" where
  "estimateBlock s =
     (case (file s, fileInfo s) of
        (Some f, Some fi) \<Rightarrow>
          if result s \<noteq> None \<or> processing s then None
          else (case resolve (selectedPreset s) (customBitrate s) (customSampleRate s) (customChannels s) of
                  Inl e \<Rightarrow> None
                | Inr p \<Rightarrow>
                    (let est = estimatedSize (bitrate_params p) (duration fi);
                         ratio = compressionRatio est (size_info fi)
                     in Some (est, ratioDisplay ratio)))
      | _ \<Rightarrow> None)"

section \<open>The component as an event system\<close>

text \<open>
  \<open>handleCompress\<close> is an \<open>async\<close> function: it runs to its first \<open>await\<close>
  inside the click that calls it, and every later piece runs when the awaited
  operation completes, with other handlers of the component free to run in between.
  A run in flight is the operation it waits for together with the values its closure
  and its locals hold.
\<close>

datatype Pending =
  PendingFetch
| PendingWrite bytes
| PendingExec
| PendingRead
| PendingDeleteInput
| PendingDeleteOutput

record Run =
  pending :: Pending
  engine_run :: Engine
  file_run :: File
  params_run :: Params

text \<open>The \<open>catch\<close> block followed by the \<open>finally\<close> block (lines 295 to 301).\<close>

definition catchFinally :: "(string \<Rightarrow> string) \<Rightarrow> string \<Rightarrow> AppState \<Rightarrow> AppState" where
  "catchFinally t msg s =
     s\<lparr>error := Some (t ''compressionFailed'' @ '' '' @ msg), processing := False\<rparr>"

text \<open>
  From the call to the first \<open>await\<close> (lines 248 to 264): the guard, the state set
  before the \<open>try\<close>, the parameters, and the call of \<open>fetchFile\<close>. No run is left
  in flight when the guard returns or the parameters throw.
\<close>

definition startRun :: "(string \<Rightarrow> string) \<Rightarrow> AppState \<Rightarrow> AppState \<times> Run option" where
  "startRun t s =
     (case ffmpeg s of
        None \<Rightarrow> (s, None)
      | Some eng \<Rightarrow>
     (case file s of
        None \<Rightarrow> (s, None)
      | Some f \<Rightarrow>
        if \<not> loaded s then (s, None)
        else
          (let s0 = s\<lparr>processing := True, error := None\<rparr> in
           case resolve (selectedPreset s) (customBitrate s) (customSampleRate s) (customChannels s) of
             Inl e \<Rightarrow> (catchFinally t e s0, None)
           | Inr p \<Rightarrow>
               (s0, Some \<lparr>pending = PendingFetch, engine_run = eng, file_run = f, params_run = p\<rparr>))))"

text \<open>
  The awaited operation completes and the run goes on to its next \<open>await\<close>, or to
  its end (\<open>None\<close>): through \<open>catch\<close> and \<open>finally\<close> when the operation threw,
  through \<open>finally\<close> after the second deletion. The state is the one of the
  component at that moment; the engine, the file and the parameters are the run's own.
\<close>

definition resumeRun ::
  "(string \<Rightarrow> string) \<Rightarrow> (File \<Rightarrow> string + bytes) \<Rightarrow> Run \<Rightarrow> AppState \<Rightarrow> World
     \<Rightarrow> AppState \<times> World \<times> Run option" where
  "resumeRun t fetchFile r s w =
     (case pending r of
        PendingFetch \<Rightarrow>
          (case fetchFile (file_run r) of
             Inl e \<Rightarrow> (catchFinally t e s, w, None)
           | Inr input \<Rightarrow> (s, w, Some (r\<lparr>pending := PendingWrite input\<rparr>)))
      | PendingWrite input \<Rightarrow>
          (case callWriteFile (engine_run r) ''input.mp3'' input w of
             (Some e, w1) \<Rightarrow> (catchFinally t e s, w1, None)
           | (None, w1) \<Rightarrow> (s, w1, Some (r\<lparr>pending := PendingExec\<rparr>)))
      | PendingExec \<Rightarrow>
          (case callExec (engine_run r) (buildArgs (params_run r)) w of
             (Some e, w1) \<Rightarrow> (catchFinally t e s, w1, None)
           | (None, w1) \<Rightarrow> (s, w1, Some (r\<lparr>pending := PendingRead\<rparr>)))
      | PendingRead \<Rightarrow>
          (case callReadFile (engine_run r) ''output.mp3'' w of
             (Inl e, w1) \<Rightarrow> (catchFinally t e s, w1, None)
           | (Inr output, w1) \<Rightarrow>
               (s\<lparr>result := Some \<lparr>blob = output, size_result = length output\<rparr>\<rparr>, w1,
                Some (r\<lparr>pending := PendingDeleteInput\<rparr>)))
      | PendingDeleteInput \<Rightarrow>
          (case callDeleteFile (engine_run r) ''input.mp3'' w of
             (Some e, w1) \<Rightarrow> (catchFinally t e s, w1, None)
           | (None, w1) \<Rightarrow> (s, w1, Some (r\<lparr>pending := PendingDeleteOutput\<rparr>)))
      | PendingDeleteOutput \<Rightarrow>
          (case callDeleteFile (engine_run r) ''output.mp3'' w of
             (Some e, w1) \<Rightarrow> (catchFinally t e s, w1, None)
           | (None, w1) \<Rightarrow> (s\<lparr>processing := False\<rparr>, w1, None)))"

text \<open>A run resumed until it ends, with nothing in between; \<open>None\<close> when the given
  number of resumptions does not reach the end.\<close>

fun runToEnd ::
  "nat \<Rightarrow> (string \<Rightarrow> string) \<Rightarrow> (File \<Rightarrow> string + bytes) \<Rightarrow> Run \<Rightarrow> AppState \<Rightarrow> World
     \<Rightarrow> (AppState \<times> World) option" where
  "runToEnd 0 t fetchFile r s w = None"
| "runToEnd (Suc n) t fetchFile r s w =
     (case resumeRun t fetchFile r s w of
        (s', w', None) \<Rightarrow> Some (s', w')
      | (s', w', Some r') \<Rightarrow> runToEnd n t fetchFile r' s' w')"

text \<open>
  \<open>handleFileSelect\<close> (lines 219 to 235), before and after its \<open>await\<close> of
  \<open>parseAudioInfo\<close>.
\<close>

definition acceptsFile :: "File \<Rightarrow> bool" where
  "acceptsFile f = (sublist ''audio'' (type_file f) \<or> suffix ''.mp3'' (name_file f))"

definition handleFileSelect_begin :: "(string \<Rightarrow> string) \<Rightarrow> File \<Rightarrow> AppState \<Rightarrow> AppState" where
  "handleFileSelect_begin t f s =
     (if \<not> acceptsFile f then s\<lparr>error := Some (t ''pleaseSelectAudio'')\<rparr>
      else s\<lparr>error := None, result := None, file := Some f\<rparr>)"

definition handleFileSelect_end ::
  "(string \<Rightarrow> string) \<Rightarrow> string + FileInfo \<Rightarrow> AppState \<Rightarrow> AppState" where
  "handleFileSelect_end t settled s =
     (case settled of
        Inr info \<Rightarrow> s\<lparr>fileInfo := Some info\<rparr>
      | Inl msg \<Rightarrow> s\<lparr>error := Some (t ''parseFileError'' @ '' '' @ msg)\<rparr>)"

text \<open>
  The component with what it has in flight: the runs of \<open>handleCompress\<close> and the
  files whose \<open>parseAudioInfo\<close> has not settled.
\<close>

record System =
  app :: AppState
  world :: World
  runs :: "Run list"
  parsing :: "File list"

definition initialSystem :: System where
  "initialSystem =
     \<lparr>app = initialState, world = \<lparr>files = Map.empty, calls = []\<rparr>, runs = [], parsing = []\<rparr>"

definition dropAt :: "nat \<Rightarrow> 'a list \<Rightarrow> 'a list" where
  "dropAt i xs = take i xs @ drop (Suc i) xs"

text \<open>
  One event of the component: a load of the engine settles (lines 133 to 162); a file
  is chosen or dropped, and later its metadata settles; a preset card or an option of
  a custom control is clicked (lines 427 and 442 to 475); the compress button is
  clicked while rendered and enabled; an operation awaited by a run completes; the
  recompress button is clicked (line 554). The guards are those of the handlers and of
  the rendering; where the page restricts an event further (a drop while the engine
  loads, a second load of the engine), the event is admitted all the same. The download
  button and the language menu change nothing of the state.
\<close>

inductive event :: "(string \<Rightarrow> string) \<Rightarrow> (File \<Rightarrow> string + bytes) \<Rightarrow> System \<Rightarrow> System \<Rightarrow> bool"
  for t :: "string \<Rightarrow> string" and fetchFile :: "File \<Rightarrow> string + bytes" where
  engineLoaded:
    "event t fetchFile y
       (y\<lparr>app := (app y)\<lparr>ffmpeg := Some eng, loaded := True, loading := False\<rparr>\<rparr>)"
| engineLoadFailed:
    "event t fetchFile y
       (y\<lparr>app := (app y)\<lparr>error := Some (t ''loadEngineFailed''), loading := False\<rparr>\<rparr>)"
| fileSelected:
    "event t fetchFile y
       (y\<lparr>app := handleFileSelect_begin t f (app y),
          parsing := parsing y @ (if acceptsFile f then [f] else [])\<rparr>)"
| fileParsed:
    "i < length (parsing y) \<Longrightarrow>
     event t fetchFile y
       (y\<lparr>app := handleFileSelect_end t (fst (parseAudioInfo t env (parsing y ! i))) (app y),
          parsing := dropAt i (parsing y)\<rparr>)"
| presetClicked:
    "p \<in> set presets \<Longrightarrow> file (app y) \<noteq> None \<Longrightarrow> result (app y) = None \<Longrightarrow>
     event t fetchFile y (y\<lparr>app := (app y)\<lparr>selectedPreset := id_preset p\<rparr>\<rparr>)"
| bitrateSelected:
    "event t fetchFile y (y\<lparr>app := selectCustomBitrate i (app y)\<rparr>)"
| sampleRateSelected:
    "event t fetchFile y (y\<lparr>app := selectCustomSampleRate i (app y)\<rparr>)"
| channelsSelected:
    "event t fetchFile y (y\<lparr>app := selectCustomChannels i (app y)\<rparr>)"
| compressClicked:
    "compressBtnRendered (app y) \<Longrightarrow> \<not> compressBtnDisabled (app y) \<Longrightarrow>
     startRun t (app y) = (s', started) \<Longrightarrow>
     event t fetchFile y
       (y\<lparr>app := s', runs := runs y @ (case started of None \<Rightarrow> [] | Some r \<Rightarrow> [r])\<rparr>)"
| runResumed:
    "i < length (runs y) \<Longrightarrow>
     resumeRun t fetchFile (runs y ! i) (app y) (world y) = (s', w', next) \<Longrightarrow>
     event t fetchFile y
       (y\<lparr>app := s', world := w',
          runs := (case next of None \<Rightarrow> dropAt i (runs y) | Some r \<Rightarrow> (runs y)[i := r])\<rparr>)"
| recompressClicked:
    "result (app y) \<noteq> None \<Longrightarrow> fileInfo (app y) \<noteq> None \<Longrightarrow>
     event t fetchFile y (y\<lparr>app := (app y)\<lparr>result := None\<rparr>\<rparr>)"

text \<open>The states the component can be in: the initial one and those events lead to.\<close>

inductive reachable :: "(string \<Rightarrow> string) \<Rightarrow> (File \<Rightarrow> string + bytes) \<Rightarrow> System \<Rightarrow> bool"
  for t :: "string \<Rightarrow> string" and fetchFile :: "File \<Rightarrow> string + bytes" where
  initial: "reachable t fetchFile initialSystem"
| after: "reachable t fetchFile y \<Longrightarrow> event t fetchFile y y' \<Longrightarrow> reachable t fetchFile y'"

text \<open>
  What is shown of every reachable state: at most one run is in flight, and
  \<open>processing\<close> is set exactly while one is; the selected preset is one of the
  catalogue.
\<close>

definition oneRun :: "System \<Rightarrow> bool" where
  "oneRun y = (length (runs y) \<le> 1 \<and> processing (app y) = (runs y \<noteq> []))"

definition presetValid :: "AppState \<Rightarrow> bool" where
  "presetValid s = (selectedPreset s \<in> set (map id_preset presets))"

section \<open>Sample inputs\<close>

text \<open>
  Concrete inputs on which the definitions above are run. They are not part of the
  program: a small file, two browsers, and an engine whose workspace behaves like
  an in-memory file system (reading or deleting a missing file throws).
\<close>

definition sampleFile :: File where
  "sampleFile = \<lparr>name_file = ''song.mp3'', type_file = ''audio/mpeg'', bytes_file = replicate 3000 0\<rparr>"

definition translate :: "string \<Rightarrow> string" where
  "translate key = key"

text \<open>The metadata load gives a duration of two seconds; decoding the samples fails.\<close>

definition browserDecodeFails :: Browser where
  "browserDecodeFails =
     \<lparr>loadMetadata = (\<lambda>f. Some (Num 2)), readAsArrayBuffer = (\<lambda>f. Some (bytes_file f)),
      decodeAudioData = (\<lambda>b. None)\<rparr>"

text \<open>The same browser, decoding to 48000 Hz mono.\<close>

definition browserDecodes :: Browser where
  "browserDecodes =
     \<lparr>loadMetadata = (\<lambda>f. Some (Num 2)), readAsArrayBuffer = (\<lambda>f. Some (bytes_file f)),
      decodeAudioData = (\<lambda>b. Some (48000, 1))\<rparr>"

text \<open>A clip of 1000 bytes whose metadata load gives the double nearest to 0.64
  seconds, \<open>5764607523034235 / 2 ^ 53\<close>.\<close>

definition clipFile :: File where
  "clipFile = \<lparr>name_file = ''clip.mp3'', type_file = ''audio/mpeg'', bytes_file = replicate 1000 0\<rparr>"

definition browserClip :: Browser where
  "browserClip =
     \<lparr>loadMetadata = (\<lambda>f. Some (Num (5764607523034235 / 9007199254740992))),
      readAsArrayBuffer = (\<lambda>f. Some (bytes_file f)),
      decodeAudioData = (\<lambda>b. Some (48000, 1))\<rparr>"

definition fetchContent :: "File \<Rightarrow> string + bytes" where
  "fetchContent f = Inr (bytes_file f)"

definition memEngine :: "(string list \<Rightarrow> workspace \<Rightarrow> string option \<times> workspace) \<Rightarrow> Engine" where
  "memEngine run =
     \<lparr>writeFile = (\<lambda>n d fs. (None, fs(n \<mapsto> d))),
      exec = run,
      readFile = (\<lambda>n fs. case fs n of None \<Rightarrow> Inl ''FS error'' | Some d \<Rightarrow> Inr d),
      deleteFile = (\<lambda>n fs. case fs n of None \<Rightarrow> (Some ''FS error'', fs)
                                | Some d \<Rightarrow> (None, fs(n := None)))\<rparr>"

text \<open>An execution that completes and writes the output: here a copy of the input.\<close>

definition execCopy :: "string list \<Rightarrow> workspace \<Rightarrow> string option \<times> workspace" where
  "execCopy args fs = (None, fs(''output.mp3'' := fs ''input.mp3''))"

text \<open>An execution that completes without writing an output, as FFmpeg does on an input
  it cannot decode: \<open>exec\<close> then resolves with a non-zero exit code, which
  \<open>handleCompress\<close> does not look at.\<close>

definition execNoOutput :: "string list \<Rightarrow> workspace \<Rightarrow> string option \<times> workspace" where
  "execNoOutput args fs = (None, fs)"

definition readyState :: "Engine \<Rightarrow> File \<Rightarrow> AppState" where
  "readyState eng f = initialState\<lparr>ffmpeg := Some eng, loaded := True, loading := False, file := Some f\<rparr>"

definition emptyWorld :: World where
  "emptyWorld = \<lparr>files = Map.empty, calls = []\<rparr>"

text \<open>The example of the specification: a file of 10,485,760 bytes and 240 seconds has
  been chosen and its metadata extracted; the preset is the initial one, \<open>medium\<close>,
  at 128 kbps.\<close>

definition exampleState :: AppState where
  "exampleState =
     (readyState (memEngine execCopy) sampleFile)
       \<lparr>fileInfo := Some \<lparr>name = ''song.mp3'', size_info = 10485760, duration = Num 240,
                            bitrate_info = Num 350, sampleRate_info = 44100,
                            channels_info = 2\<rparr>\<rparr>"

text \<open>The same with an empty original.\<close>

definition emptyFileState :: AppState where
  "emptyFileState =
     exampleState
       \<lparr>fileInfo := Some \<lparr>name = ''song.mp3'', size_info = 0, duration = Num 240,
                            bitrate_info = Num 0, sampleRate_info = 44100,
                            channels_info = 2\<rparr>\<rparr>"



text \<open>A run in flight: the state and the world that a first call of
  \<open>handleCompress\<close> has left when it is suspended after staging its input.\<close>

definition busyState :: AppState where
  "busyState = (readyState (memEngine execCopy) sampleFile)\<lparr>processing := True\<rparr>"

definition stagedWorld :: World where
  "stagedWorld =
     \<lparr>files = [''input.mp3'' \<mapsto> bytes_file sampleFile],
      calls = [WriteFile ''input.mp3'' (bytes_file sampleFile)]\<rparr>"

text \<open>The component after the engine has loaded and the sample file has been chosen;
  then after the compress button has been clicked, with one run waiting for
  \<open>fetchFile\<close>; and, instead, after the custom preset and the first option of the
  bit rate control have been clicked.\<close>

definition readySystem :: System where
  "readySystem =
     \<lparr>app = readyState (memEngine execCopy) sampleFile,
      world = \<lparr>files = Map.empty, calls = []\<rparr>, runs = [], parsing = [sampleFile]\<rparr>"

definition mediumRun :: Run where
  "mediumRun =
     \<lparr>pending = PendingFetch, engine_run = memEngine execCopy, file_run = sampleFile,
      params_run = \<lparr>bitrate_params = 128, sampleRate_params = Some 44100,
                     channels_params = Some 2\<rparr>\<rparr>"

definition busySystem :: System where
  "busySystem = readySystem\<lparr>app := busyState, runs := [mediumRun]\<rparr>"

definition customSystem :: System where
  "customSystem =
     readySystem\<lparr>app := (readyState (memEngine execCopy) sampleFile)
                          \<lparr>selectedPreset := ''custom'', customBitrate := 320\<rparr>\<rparr>"

section \<open>Properties\<close>

subsection \<open>Tables, numbers as text and the argument list\<close>

lemma presets_nonzero:
  "\<forall>p \<in> set presets. sampleRate p \<noteq> Some 0 \<and> channels p \<noteq> Some 0"
  by (simp add: presets_def)

lemma presets_voice:
  "presets ! 5 = \<lparr>id_preset = ''voice'', nameKey = ''presetVoice'', descKey = ''presetVoiceDesc'',
      bitrate = 64, sampleRate = Some 22050, channels = Some 1\<rparr>"
  by (simp add: presets_def)

lemma presets_custom:
  "presets ! 7 = \<lparr>id_preset = ''custom'', nameKey = ''presetCustom'', descKey = ''presetCustomDesc'',
      bitrate = 128, sampleRate = Some 44100, channels = Some 2\<rparr>"
  by (simp add: presets_def)

lemma find_in_set: "find P xs = Some x \<Longrightarrow> x \<in> set xs"
  by (auto simp: find_Some_iff)

text \<open>Evaluating \<open>toString\<close> on a numeral, one digit at a time.\<close>

lemma natToString_digit: "n < 10 \<Longrightarrow> natToString n = [''0123456789'' ! n]"
  by (simp add: natToString.simps)

lemma natToString_more:
  "\<not> n < 10 \<Longrightarrow> natToString n = natToString (n div 10) @ [''0123456789'' ! (n mod 10)]"
  by (subst natToString.simps) simp

lemmas toString_eval = toString_def natToString_digit natToString_more

lemma toString_63: "toString 63 = ''63''"
  by (simp add: toString_eval)

text \<open>A resolved parameter is zero only if a custom value is: no preset holds a zero.\<close>

lemma resolve_nonzero:
  assumes "resolve sel cb cs cc = Inr p" and "cs \<noteq> 0" and "cc \<noteq> 0"
  shows "sampleRate_params p \<noteq> Some 0 \<and> channels_params p \<noteq> Some 0"
proof (cases "sel = ''custom''")
  case True
  with assms show ?thesis by (auto simp: resolve_def)
next
  case False
  with assms obtain q where q: "find (\<lambda>p. id_preset p = sel) presets = Some q"
    and p: "p = \<lparr>bitrate_params = bitrate q, sampleRate_params = sampleRate q,
                  channels_params = channels q\<rparr>"
    by (auto simp: resolve_def split: option.splits)
  from q have "q \<in> set presets" by (rule find_in_set)
  with presets_nonzero p show ?thesis by simp
qed

lemma buildArgs_shape:
  assumes "sampleRate_params p \<noteq> Some 0" and "channels_params p \<noteq> Some 0"
  shows "buildArgs p = specArgs p"
proof -
  have sr: "truthy (sampleRate_params p) = (sampleRate_params p \<noteq> None)"
    using assms(1) by (cases "sampleRate_params p") (simp_all add: truthy_def)
  have ch: "truthy (channels_params p) = (channels_params p \<noteq> None)"
    using assms(2) by (cases "channels_params p") (simp_all add: truthy_def)
  show ?thesis
    unfolding buildArgs_def specArgs_def Let_def sr ch
    by (cases "sampleRate_params p"; cases "channels_params p") simp_all
qed

text \<open>The arguments of the \<open>medium\<close> preset, which the sample states select.\<close>

lemma resolve_medium:
  "resolve ''medium'' cb cs cc =
     Inr \<lparr>bitrate_params = 128, sampleRate_params = Some 44100, channels_params = Some 2\<rparr>"
  by (simp add: resolve_def presets_def)

lemma buildArgs_medium:
  "buildArgs \<lparr>bitrate_params = 128, sampleRate_params = Some 44100, channels_params = Some 2\<rparr> =
     [''-i'', ''input.mp3'', ''-b:a'', ''128k'', ''-ar'', ''44100'', ''-ac'', ''2'',
      ''-map'', ''0:a'', ''-y'', ''output.mp3'']"
  by (simp add: buildArgs_def truthy_def toString_eval)







subsection \<open>Doubles\<close>

lemma round_even_of_int: "round_even (of_int m) = m"
  by (simp add: round_even_def)

lemma round_even_near:
  assumes "\<bar>x - of_int m\<bar> < 1 / 2"
  shows "round_even x = m"
proof (cases "of_int m \<le> x")
  case True
  with assms have "\<lfloor>x\<rfloor> = m" by (intro floor_unique) (auto simp: abs_if split: if_splits)
  with assms True show ?thesis by (simp add: round_even_def Let_def)
next
  case False
  with assms have f: "\<lfloor>x\<rfloor> = m - 1" by (intro floor_unique) (auto simp: abs_if split: if_splits)
  from assms False have "1 / 2 < x - of_int (m - 1)" by (auto simp: abs_if split: if_splits)
  with f show ?thesis by (simp add: round_even_def Let_def)
qed

lemma powi_less_D:
  assumes "(2::real) powi m < 2 powi n"
  shows "m < n"
proof (rule ccontr)
  assume "\<not> m < n"
  then have "n \<le> m" by simp
  then have "(2::real) powi n \<le> 2 powi m" by (rule power_int_increasing) simp
  with assms show False by simp
qed

lemma binade_eval:
  "2 powi e \<le> x \<Longrightarrow> x < 2 powi (e + 1) \<Longrightarrow> binade x = e"
proof (induction x arbitrary: e rule: binade.induct)
  case (1 x)
  have "0 < (2::real) powi e" by simp
  with "1.prems" have pos: "0 < x" by linarith
  show ?case
  proof (cases "2 \<le> x")
    case True
    with "1.prems"(2) have "(2::real) powi 1 < 2 powi (e + 1)" by simp
    then have "1 < e + 1" by (rule powi_less_D)
    have "binade (x / 2) = e - 1"
    proof (rule "1.IH"(1))
      show "\<not> x \<le> 0" using pos by simp
      show "2 \<le> x" by (rule True)
      have "(2::real) powi e = 2 powi (e - 1) * 2"
        by (simp add: power_int_diff)
      with "1.prems"(1) show "2 powi (e - 1) \<le> x / 2" by simp
      have "(2::real) powi (e + 1) = 2 powi (e - 1 + 1) * 2"
        by (simp add: power_int_add)
      with "1.prems"(2) show "x / 2 < 2 powi (e - 1 + 1)" by simp
    qed
    with True pos show ?thesis by (subst binade.simps) simp
  next
    case False
    note lt2 = this
    show ?thesis
    proof (cases "x < 1")
      case True
      with "1.prems"(1) have "(2::real) powi e < 2 powi 0" by simp
      then have e: "e < 0" by (rule powi_less_D)
      have "binade (2 * x) = e + 1"
      proof (rule "1.IH"(2))
        show "\<not> x \<le> 0" using pos by simp
        show "\<not> 2 \<le> x" by (rule lt2)
        show "x < 1" by (rule True)
        have "(2::real) powi (e + 1) = 2 powi e * 2"
          by (simp add: power_int_add)
        with "1.prems"(1) show "2 powi (e + 1) \<le> 2 * x" by simp
        have "(2::real) powi (e + 1 + 1) = 2 powi (e + 1) * 2"
          by (simp add: power_int_add)
        with "1.prems"(2) show "2 * x < 2 powi (e + 1 + 1)" by simp
      qed
      with True lt2 pos show ?thesis by (subst binade.simps) simp
    next
      case False
      with lt2 "1.prems" have a: "(2::real) powi e < 2 powi 1"
        and b: "(2::real) powi 0 < 2 powi (e + 1)"
        by simp_all
      from a have "e < 1" by (rule powi_less_D)
      moreover from b have "0 < e + 1" by (rule powi_less_D)
      ultimately have "e = 0" by simp
      with False lt2 pos show ?thesis by (subst binade.simps) simp
    qed
  qed
qed

text \<open>The binade is the integer part of the binary logarithm.\<close>

lemma binade_log:
  assumes "0 < x"
  shows "binade x = \<lfloor>log 2 x\<rfloor>"
proof -
  define e where "e = \<lfloor>log 2 x\<rfloor>"
  have a: "(2::real) powr of_int e = 2 powi e"
    by (rule powr_real_of_int') simp_all
  have b: "(2::real) powr of_int (e + 1) = 2 powi (e + 1)"
    by (rule powr_real_of_int') simp_all
  have "(\<lfloor>log 2 x\<rfloor> = e) = (2 powr of_int e \<le> x \<and> x < 2 powr of_int (e + 1))"
    by (rule floor_log_eq_powr_iff [OF assms]) simp
  then have "2 powi e \<le> x" and "x < 2 powi (e + 1)"
    unfolding a b by (simp_all add: e_def)
  then have "binade x = e" by (rule binade_eval)
  then show ?thesis by (simp add: e_def)
qed

lemma quantum_eval:
  assumes "2 powi e \<le> \<bar>x\<bar>" "\<bar>x\<bar> < 2 powi (e + 1)"
  shows "quantum x = max e (- 1022) - 52"
  unfolding quantum_def binade_eval [OF assms] ..

text \<open>Rounding a value given the binade it lies in and the rounding of its scaled
  significand.\<close>

lemma nearest_eval:
  assumes "2 powi e \<le> \<bar>x\<bar>" "\<bar>x\<bar> < 2 powi (e + 1)" "- 1022 \<le> e"
    and "round_even (x / 2 powi (e - 52)) = m"
  shows "nearest x = of_int m * 2 powi (e - 52)"
proof -
  have "0 < (2::real) powi e" by simp
  with assms(1) have "0 < \<bar>x\<bar>" by linarith
  then have nz: "x \<noteq> 0" by simp
  have q: "quantum x = e - 52"
    using quantum_eval [OF assms(1,2)] assms(3) by simp
  show ?thesis
    using nz by (simp add: nearest_def q assms(4))
qed

text \<open>A value with a significand of at most 53 bits and an exponent in range is a
  double: rounding returns it.\<close>

lemma nearest_dyadic:
  assumes m: "\<bar>m\<bar> < 2 ^ 53" and k: "- 1074 \<le> k"
  shows "nearest (of_int m * 2 powi k) = of_int m * 2 powi k"
proof (cases "m = 0")
  case True
  then show ?thesis by (simp add: nearest_def)
next
  case False
  define x :: real where "x = of_int m * 2 powi k"
  have xnz: "x \<noteq> 0" using False by (simp add: x_def)
  define q where "q = quantum x"
  have ax: "\<bar>x\<bar> = of_int \<bar>m\<bar> * 2 powi k" by (simp add: x_def abs_mult)
  have "of_int \<bar>m\<bar> < (2::real) ^ 53" using m by (metis of_int_less_iff of_int_numeral of_int_power)
  then have "\<bar>x\<bar> < 2 ^ 53 * 2 powi k" unfolding ax by (simp add: mult_strict_right_mono)
  also have "\<dots> = 2 powi (k + 53)" by (simp add: power_int_add)
  finally have up: "\<bar>x\<bar> < 2 powi (k + 53)" .
  have "log 2 \<bar>x\<bar> < log 2 (2 powi (k + 53))"
    using up xnz by simp
  also have "\<dots> = log 2 (2 powr of_int (k + 53))"
    by (subst powr_real_of_int') simp_all
  also have "\<dots> = of_int (k + 53)"
    by simp
  finally have "\<lfloor>log 2 \<bar>x\<bar>\<rfloor> < k + 53" by linarith
  moreover have "binade \<bar>x\<bar> = \<lfloor>log 2 \<bar>x\<bar>\<rfloor>"
    by (rule binade_log) (use xnz in simp)
  ultimately have qk: "q \<le> k" using k by (simp add: q_def quantum_def)
  have "x / 2 powi q = of_int m * 2 powi (k - q)"
    by (simp add: x_def power_int_diff)
  also have "\<dots> = of_int (m * 2 ^ nat (k - q))"
    using qk by (simp add: power_int_def)
  finally have "round_even (x / 2 powi q) = m * 2 ^ nat (k - q)"
    by (simp only: round_even_of_int)
  then have "nearest x = of_int (m * 2 ^ nat (k - q)) * 2 powi q"
    using xnz by (simp add: nearest_def q_def)
  also have "\<dots> = of_int m * (2 powi (k - q) * 2 powi q)"
    using qk by (simp add: power_int_def)
  also have "\<dots> = of_int m * 2 powi k"
    by (simp add: power_int_add [symmetric])
  finally show ?thesis unfolding x_def .
qed

text \<open>Rounding moves a value by at most half a unit in the last place.\<close>

lemma round_even_error: "\<bar>of_int (round_even y) - y\<bar> \<le> 1 / 2"
proof -
  define f where "f = \<lfloor>y\<rfloor>"
  have a: "of_int f \<le> y" and b: "y < of_int f + 1"
    unfolding f_def by linarith+
  consider "y - of_int f < 1 / 2" | "1 / 2 < y - of_int f" | "y - of_int f = 1 / 2"
    by linarith
  then show ?thesis
  proof cases
    case 1
    then have "round_even y = f" by (simp add: round_even_def Let_def f_def)
    with a 1 show ?thesis by simp
  next
    case 2
    then have "round_even y = f + 1" by (simp add: round_even_def Let_def f_def)
    with b 2 show ?thesis by simp
  next
    case 3
    then have "round_even y = f \<or> round_even y = f + 1"
      by (simp add: round_even_def Let_def f_def)
    with 3 show ?thesis by auto
  qed
qed

lemma nearest_error: "\<bar>nearest x - x\<bar> \<le> 2 powi quantum x / 2"
proof (cases "x = 0")
  case True
  then show ?thesis by (simp add: nearest_def)
next
  case False
  define q where "q = quantum x"
  define y where "y = x / 2 powi q"
  have n: "nearest x = of_int (round_even y) * 2 powi q"
    using False by (simp add: nearest_def q_def y_def)
  have "x = y * 2 powi q" by (simp add: y_def)
  then have "nearest x - x = of_int (round_even y) * 2 powi q - y * 2 powi q"
    using n by simp
  also have "\<dots> = (of_int (round_even y) - y) * 2 powi q"
    by (simp add: algebra_simps)
  finally have "\<bar>nearest x - x\<bar> = \<bar>of_int (round_even y) - y\<bar> * 2 powi q"
    by (simp add: abs_mult)
  also have "\<dots> \<le> 1 / 2 * 2 powi q"
    by (rule mult_right_mono [OF round_even_error]) simp
  finally show ?thesis by (simp add: q_def)
qed

lemma double_eval:
  assumes "2 powi e \<le> \<bar>x\<bar>" "\<bar>x\<bar> < 2 powi (e + 1)" "- 1022 \<le> e"
    and "round_even (x / 2 powi (e - 52)) = m"
    and "\<bar>of_int m * 2 powi (e - 52)\<bar> < (2::real) ^ 1024"
  shows "double x = Num (of_int m * 2 powi (e - 52))"
  unfolding double_def nearest_eval [OF assms(1-4)] using assms(5)
  by (simp add: Let_def abs_less_iff)

lemma double_dyadic:
  assumes "\<bar>m\<bar> < 2 ^ 53" "- 1074 \<le> k" "\<bar>of_int m * 2 powi k\<bar> < (2::real) ^ 1024"
  shows "double (of_int m * 2 powi k) = Num (of_int m * 2 powi k)"
  unfolding double_def nearest_dyadic [OF assms(1,2)] using assms(3)
  by (simp add: Let_def abs_less_iff)

text \<open>The integers below \<open>2 ^ 53\<close> are doubles.\<close>

lemma double_of_int:
  assumes "\<bar>m\<bar> < 2 ^ 53"
  shows "double (of_int m) = Num (of_int m)"
proof -
  have "\<bar>real_of_int m\<bar> < 2 ^ 53"
    using assms by (metis of_int_abs of_int_less_iff of_int_numeral of_int_power)
  also have "\<dots> < (2::real) ^ 1024" by (rule power_strict_increasing) simp_all
  finally show ?thesis using double_dyadic [of m 0] assms by simp
qed

lemma double_numeral:
  "(numeral n :: int) < 2 ^ 53 \<Longrightarrow> double (numeral n) = Num (numeral n)"
  using double_of_int [of "numeral n"] by simp

lemma double_neg_numeral:
  "(numeral n :: int) < 2 ^ 53 \<Longrightarrow> double (- numeral n) = Num (- numeral n)"
  using double_of_int [of "- numeral n"] by simp

lemma double_0: "double 0 = Num 0"
  by (simp add: double_def nearest_def)

lemma double_1: "double 1 = Num 1"
  using double_of_int [of 1] by simp

lemma double_minus_1: "double (- 1) = Num (- 1)"
  using double_of_int [of "- 1"] by simp

lemmas double_int = double_numeral double_neg_numeral double_0 double_1 double_minus_1

text \<open>Evaluating \<open>round_even\<close> on a quotient of numerals.\<close>

lemmas round_even_eval = round_even_def Let_def

subsection \<open>Rounding and the figures\<close>

lemma round_half_up_eq_round: "round_half_up x = round x"
proof (cases "x - of_int \<lfloor>x\<rfloor> < 1 / 2")
  case True
  have "\<lfloor>x + 1 / 2\<rfloor> = \<lfloor>x\<rfloor>"
    by (rule floor_unique) (use True in linarith)+
  with True show ?thesis by (simp add: round_half_up_def round_def)
next
  case False
  have "\<lfloor>x + 1 / 2\<rfloor> = \<lfloor>x\<rfloor> + 1"
    by (rule floor_unique) (use False in \<open>simp; linarith\<close>)+
  with False show ?thesis by (simp add: round_half_up_def round_def)
qed

lemma round_half_up_of_int: "round_half_up (of_int m) = m"
  by (simp add: round_half_up_def)

text \<open>For a whole number of seconds the estimated size is the product itself, as long
  as it is below \<open>2 ^ 53\<close>.\<close>

lemma estimatedSize_integral:
  assumes "\<bar>br * 125\<bar> < 2 ^ 53" and "\<bar>br * 125 * n\<bar> < 2 ^ 53"
  shows "estimatedSize br (Num (of_int n)) = Num (of_int (br * 125 * n))"
proof -
  have "multiply (Num (of_int br)) (Num 125) = double (of_int (br * 125))"
    by simp
  also have "\<dots> = Num (of_int (br * 125))"
    using assms(1) by (rule double_of_int)
  finally have a: "multiply (Num (of_int br)) (Num 125) = Num (of_int (br * 125))" .
  have "multiply (Num (of_int (br * 125))) (Num (of_int n)) = double (of_int (br * 125 * n))"
    by simp
  also have "\<dots> = Num (of_int (br * 125 * n))"
    using assms(2) by (rule double_of_int)
  finally have b: "multiply (Num (of_int (br * 125))) (Num (of_int n)) =
      Num (of_int (br * 125 * n))" .
  show ?thesis
    unfolding estimatedSize_def a b by (simp only: Math_round.simps round_half_up_of_int)
qed

text \<open>The example of the specification: every intermediate value is a double.\<close>

lemma estimatedSize_example: "estimatedSize 128 (Num 240) = Num 3840000"
  by (simp add: estimatedSize_def double_int round_half_up_def)

lemma compressionRatio_example: "compressionRatio (Num 3840000) 10485760 = Num 63"
proof -
  have a: "divideBy (Num 3840000) (Num (real 10485760)) = Num (375 / 1024)"
    using double_dyadic [of 375 "- 10"] by simp
  have b: "subtract (Num 1) (Num (375 / 1024)) = Num (649 / 1024)"
    using double_dyadic [of 649 "- 10"] by simp
  have c: "multiply (Num (649 / 1024)) (Num 100) = Num (16225 / 256)"
    using double_dyadic [of 16225 "- 8"] by simp
  have d: "round_half_up (16225 / 256) = 63"
    by (simp add: round_half_up_def)
  show ?thesis
    unfolding compressionRatio_def a b c by (simp add: d)
qed

lemma estimateBlock_Some:
  assumes "estimateBlock s = Some (est, shown)"
  shows "\<exists>fi p. fileInfo s = Some fi
           \<and> resolve (selectedPreset s) (customBitrate s) (customSampleRate s) (customChannels s) = Inr p
           \<and> est = estimatedSize (bitrate_params p) (duration fi)
           \<and> shown = ratioDisplay (compressionRatio est (size_info fi))"
proof (cases "file s")
  case None
  with assms show ?thesis by (simp add: estimateBlock_def)
next
  case (Some f)
  note f = this
  show ?thesis
  proof (cases "fileInfo s")
    case None
    with assms f show ?thesis by (simp add: estimateBlock_def)
  next
    case (Some fi)
    note fi = this
    show ?thesis
    proof (cases "resolve (selectedPreset s) (customBitrate s) (customSampleRate s) (customChannels s)")
      case (Inl e)
      with assms f fi show ?thesis by (simp add: estimateBlock_def split: if_splits)
    next
      case (Inr p)
      with assms f fi
      have "est = estimatedSize (bitrate_params p) (duration fi)"
        and "shown = ratioDisplay (compressionRatio est (size_info fi))"
        by (auto simp: estimateBlock_def Let_def split: if_splits)
      with fi Inr show ?thesis by simp
    qed
  qed
qed

lemma estimateBlock_example:
  "estimateBlock exampleState = Some (Num 3840000, ''positive'', ''-63%'')"
  by (simp add: estimateBlock_def exampleState_def readyState_def initialState_def resolve_medium
      estimatedSize_example compressionRatio_example ratioDisplay_def toString_63)

text \<open>
  Inputs at which rounding to a double changes the figure: the exact quotient of
  1000 bytes over the double nearest to 0.64 seconds is just below 12.5, its double
  is 12.5; the exact percentage of 17 bytes out of 40 is 57.5, the doubles give
  57.49999999999999; the exact product of 16000 and the double nearest to
  240.00571875 seconds is just below 3840091.5, its double is 3840091.5.
\<close>

lemma originalBitrate_rounded:
  "originalBitrate 1000 (Num (5764607523034235 / 9007199254740992)) = Num 13"
proof -
  have a: "multiply (Num (real 1000)) (Num 8) = Num 8000"
    by (simp add: double_int)
  have b: "divideBy (Num 8000) (Num (5764607523034235 / 9007199254740992)) = Num 12500"
    using double_eval [of 13 "8000 / (5764607523034235 / 9007199254740992)" 6871947673600000]
    by (simp add: round_even_eval)
  have c: "divideBy (Num 12500) (Num 1000) = Num (25 / 2)"
    using double_dyadic [of 25 "- 1"] by simp
  have d: "round_half_up (25 / 2) = 13"
    by (simp add: round_half_up_def)
  show ?thesis
    unfolding originalBitrate_def a b c by (simp add: d)
qed

lemma savedPercent_rounded: "savedPercent 17 40 = Num 57"
proof -
  have a: "divideBy (Num (real 17)) (Num (real 40)) = Num (7656119366529843 / 18014398509481984)"
    using double_eval [of "- 2" "17 / 40" 7656119366529843] by (simp add: round_even_eval)
  have b: "subtract (Num 1) (Num (7656119366529843 / 18014398509481984)) =
      Num (2589569785738035 / 4503599627370496)"
    using double_eval [of "- 1" "1 - 7656119366529843 / 18014398509481984" 5179139571476070]
    by (simp add: round_even_eval)
  have c: "multiply (Num (2589569785738035 / 4503599627370496)) (Num 100) =
      Num (8092405580431359 / 140737488355328)"
    using double_eval [of 5 "2589569785738035 / 4503599627370496 * 100" 8092405580431359]
    by (simp add: round_even_eval)
  have d: "round_half_up (8092405580431359 / 140737488355328) = 57"
    by (simp add: round_half_up_def)
  show ?thesis
    unfolding savedPercent_def a b c by (simp add: d)
qed

lemma savedPercent_negative: "savedPercent 47 40 = Num (- 18)"
proof -
  have a: "divideBy (Num (real 47)) (Num (real 40)) = Num (5291729562160333 / 4503599627370496)"
    using double_eval [of 0 "47 / 40" 5291729562160333] by (simp add: round_even_eval)
  have b: "subtract (Num 1) (Num (5291729562160333 / 4503599627370496)) =
      Num (- (788129934789837 / 4503599627370496))"
    using double_dyadic [of "- 788129934789837" "- 52"] by simp
  have c: "multiply (Num (- (788129934789837 / 4503599627370496))) (Num 100) =
      Num (- (4925812092436481 / 281474976710656))"
    using double_eval [of 4 "- (788129934789837 / 4503599627370496) * 100" "- 4925812092436481"]
    by (simp add: round_even_eval)
  have d: "round_half_up (- (4925812092436481 / 281474976710656)) = - 18"
    by (simp add: round_half_up_def)
  show ?thesis
    unfolding savedPercent_def a b c by (simp add: d)
qed

lemma estimatedSize_rounded:
  "estimatedSize 128 (Num (8444450511947563 / 35184372088832)) = Num 3840092"
proof -
  have a: "multiply (Num (of_int 128)) (Num 125) = Num 16000"
    by (simp add: double_int)
  have b: "multiply (Num 16000) (Num (8444450511947563 / 35184372088832)) = Num (7680183 / 2)"
    using double_eval [of 21 "16000 * (8444450511947563 / 35184372088832)" 8246533703073792]
    by (simp add: round_even_eval)
  have d: "round_half_up (7680183 / 2) = 3840092"
    by (simp add: round_half_up_def)
  show ?thesis
    unfolding estimatedSize_def a b by (simp add: d)
qed

text \<open>An empty original: the ratio is \<open>-Infinity\<close>, shown as \<open>+Infinity%\<close>.\<close>

lemma compressionRatio_empty: "compressionRatio (Num 3840000) 0 = NegInfinity"
  by (simp add: compressionRatio_def)

lemma estimateBlock_empty:
  "estimateBlock emptyFileState = Some (Num 3840000, ''negative'', ''+Infinity%'')"
  by (simp add: estimateBlock_def emptyFileState_def exampleState_def readyState_def
      initialState_def resolve_medium estimatedSize_example compressionRatio_empty
      ratioDisplay_def)

subsection \<open>The ways the metadata extraction settles\<close>

lemma size_sampleFile: "size_file sampleFile = 3000"
  by (simp add: size_file_def sampleFile_def)

lemma originalBitrate_sample: "originalBitrate 3000 (Num 2) = Num 12"
  by (simp add: originalBitrate_def double_int round_half_up_def)

text \<open>The four ways \<open>parseAudioInfo\<close> settles.\<close>

lemma parseAudioInfo_load_error:
  "loadMetadata env f = None \<Longrightarrow>
   parseAudioInfo t env f = (Inl (t ''cannotParseAudio''), [])"
  by (simp add: parseAudioInfo_def)

lemma parseAudioInfo_read_error:
  "loadMetadata env f = Some d \<Longrightarrow> readAsArrayBuffer env f = None \<Longrightarrow>
   parseAudioInfo t env f = (Inl (t ''cannotReadFile''), [AudioCtx])"
  by (simp add: parseAudioInfo_def)

lemma parseAudioInfo_decoded:
  "loadMetadata env f = Some d \<Longrightarrow> readAsArrayBuffer env f = Some buf \<Longrightarrow>
   decodeAudioData env buf = Some (rate, chans) \<Longrightarrow>
   parseAudioInfo t env f =
     (Inr \<lparr>name = name_file f, size_info = size_file f, duration = d,
           bitrate_info = originalBitrate (size_file f) d,
           sampleRate_info = rate, channels_info = chans\<rparr>, [])"
  by (simp add: parseAudioInfo_def)

lemma parseAudioInfo_decode_error:
  "loadMetadata env f = Some d \<Longrightarrow> readAsArrayBuffer env f = Some buf \<Longrightarrow>
   decodeAudioData env buf = None \<Longrightarrow>
   parseAudioInfo t env f =
     (Inr \<lparr>name = name_file f, size_info = size_file f, duration = d,
           bitrate_info = originalBitrate (size_file f) d,
           sampleRate_info = 44100, channels_info = 2\<rparr>, [AudioCtx])"
  by (simp add: parseAudioInfo_def)

text \<open>Every file info the extraction resolves with holds the size of the file, the
  loaded duration and the bit rate computed from the two.\<close>

lemma parseAudioInfo_coarse:
  assumes "fst (parseAudioInfo t env f) = Inr info"
  shows "loadMetadata env f = Some (duration info) \<and>
         size_info info = size_file f \<and>
         bitrate_info info = originalBitrate (size_file f) (duration info)"
proof (cases "loadMetadata env f")
  case None
  with assms show ?thesis by (simp add: parseAudioInfo_load_error)
next
  case (Some d)
  note d = this
  show ?thesis
  proof (cases "readAsArrayBuffer env f")
    case None
    with assms d show ?thesis by (simp add: parseAudioInfo_read_error)
  next
    case (Some buf)
    note buf = this
    show ?thesis
    proof (cases "decodeAudioData env buf")
      case None
      from assms d show ?thesis
        unfolding parseAudioInfo_decode_error [OF d buf None] by auto
    next
      case (Some rc)
      then obtain rate chans where rc: "decodeAudioData env buf = Some (rate, chans)"
        by (cases rc) simp
      from assms d show ?thesis
        unfolding parseAudioInfo_decoded [OF d buf rc] by auto
    qed
  qed
qed

subsection \<open>The run on the sample engines\<close>

lemmas engine_calls = callWriteFile_def callExec_def callReadFile_def callDeleteFile_def

text \<open>The body of the run on the sample engine whose execution writes no output:
  reading the output throws, and the two deletions are never reached.\<close>

lemma compressBody_no_output:
  assumes "selectedPreset s = ''medium''"
  shows "compressBody fetchContent (memEngine execNoOutput) sampleFile s emptyWorld =
     (Some ''FS error'', s,
      \<lparr>files = [''input.mp3'' \<mapsto> bytes_file sampleFile],
       calls = [WriteFile ''input.mp3'' (bytes_file sampleFile),
                Exec [''-i'', ''input.mp3'', ''-b:a'', ''128k'', ''-ar'', ''44100'', ''-ac'', ''2'',
                      ''-map'', ''0:a'', ''-y'', ''output.mp3''],
                ReadFile ''output.mp3'']\<rparr>)"
  unfolding compressBody_def assms
  by (simp add: resolve_medium buildArgs_medium engine_calls memEngine_def execNoOutput_def
      fetchContent_def emptyWorld_def)

text \<open>The body of the run on the sample engine whose execution writes the output: all
  five calls are made, after whatever calls the world already records.\<close>

lemma compressBody_copy:
  assumes "selectedPreset s = ''medium''"
  shows "fst (compressBody fetchContent (memEngine execCopy) sampleFile s w) = None"
    and "fst (snd (compressBody fetchContent (memEngine execCopy) sampleFile s w)) =
           s\<lparr>result := Some \<lparr>blob = bytes_file sampleFile,
                                size_result = length (bytes_file sampleFile)\<rparr>\<rparr>"
    and "calls (snd (snd (compressBody fetchContent (memEngine execCopy) sampleFile s w))) =
           calls w @
           [WriteFile ''input.mp3'' (bytes_file sampleFile),
            Exec [''-i'', ''input.mp3'', ''-b:a'', ''128k'', ''-ar'', ''44100'', ''-ac'', ''2'',
                  ''-map'', ''0:a'', ''-y'', ''output.mp3''],
            ReadFile ''output.mp3'', DeleteFile ''input.mp3'', DeleteFile ''output.mp3'']"
    and "files (snd (snd (compressBody fetchContent (memEngine execCopy) sampleFile s w)))
           ''input.mp3'' = None"
    and "files (snd (snd (compressBody fetchContent (memEngine execCopy) sampleFile s w)))
           ''output.mp3'' = None"
  unfolding compressBody_def assms
  by (simp_all add: resolve_medium buildArgs_medium engine_calls memEngine_def execCopy_def
      fetchContent_def)

lemma handleCompress_copy:
  assumes "selectedPreset s = ''medium''" and "ffmpeg s = Some (memEngine execCopy)"
    and "file s = Some sampleFile" and "loaded s"
  shows "calls (snd (handleCompress translate fetchContent s w)) =
           calls w @
           [WriteFile ''input.mp3'' (bytes_file sampleFile),
            Exec [''-i'', ''input.mp3'', ''-b:a'', ''128k'', ''-ar'', ''44100'', ''-ac'', ''2'',
                  ''-map'', ''0:a'', ''-y'', ''output.mp3''],
            ReadFile ''output.mp3'', DeleteFile ''input.mp3'', DeleteFile ''output.mp3'']"
    and "\<not> processing (fst (handleCompress translate fetchContent s w))"
proof -
  let ?s0 = "s\<lparr>processing := True, error := None\<rparr>"
  have m: "selectedPreset ?s0 = ''medium''" using assms(1) by simp
  obtain e s1 w1 where b:
    "compressBody fetchContent (memEngine execCopy) sampleFile ?s0 w = (e, s1, w1)"
    by (cases "compressBody fetchContent (memEngine execCopy) sampleFile ?s0 w") auto
  from compressBody_copy(1) [OF m, of w] b have e: "e = None" by simp
  from compressBody_copy(3) [OF m, of w] b have c: "calls w1 =
           calls w @
           [WriteFile ''input.mp3'' (bytes_file sampleFile),
            Exec [''-i'', ''input.mp3'', ''-b:a'', ''128k'', ''-ar'', ''44100'', ''-ac'', ''2'',
                  ''-map'', ''0:a'', ''-y'', ''output.mp3''],
            ReadFile ''output.mp3'', DeleteFile ''input.mp3'', DeleteFile ''output.mp3'']"
    by simp
  have h: "handleCompress translate fetchContent s w = (s1\<lparr>processing := False\<rparr>, w1)"
    using assms(2-4) b e by (simp add: handleCompress_def)
  show "calls (snd (handleCompress translate fetchContent s w)) =
           calls w @
           [WriteFile ''input.mp3'' (bytes_file sampleFile),
            Exec [''-i'', ''input.mp3'', ''-b:a'', ''128k'', ''-ar'', ''44100'', ''-ac'', ''2'',
                  ''-map'', ''0:a'', ''-y'', ''output.mp3''],
            ReadFile ''output.mp3'', DeleteFile ''input.mp3'', DeleteFile ''output.mp3'']"
    unfolding h using c by simp
  show "\<not> processing (fst (handleCompress translate fetchContent s w))"
    unfolding h by simp
qed

lemma busyState_fields:
  "selectedPreset busyState = ''medium''" "ffmpeg busyState = Some (memEngine execCopy)"
  "file busyState = Some sampleFile" "loaded busyState" "processing busyState"
  by (simp_all add: busyState_def readyState_def initialState_def)





subsection \<open>The run, piece by piece\<close>

lemma startRun_Some:
  assumes "startRun t s = (s0, Some r)"
  obtains eng f p where "ffmpeg s = Some eng" and "file s = Some f" and "loaded s"
    and "resolve (selectedPreset s) (customBitrate s) (customSampleRate s) (customChannels s) = Inr p"
    and "s0 = s\<lparr>processing := True, error := None\<rparr>"
    and "r = \<lparr>pending = PendingFetch, engine_run = eng, file_run = f, params_run = p\<rparr>"
proof (cases "ffmpeg s")
  case None
  with assms show ?thesis by (simp add: startRun_def)
next
  case (Some eng)
  note eng = this
  show ?thesis
  proof (cases "file s")
    case None
    with assms eng show ?thesis by (simp add: startRun_def)
  next
    case (Some f)
    note f = this
    show ?thesis
    proof (cases "loaded s")
      case False
      with assms eng f show ?thesis by (simp add: startRun_def)
    next
      case True
      show ?thesis
      proof (cases "resolve (selectedPreset s) (customBitrate s) (customSampleRate s) (customChannels s)")
        case (Inl e)
        with assms eng f True show ?thesis by (simp add: startRun_def)
      next
        case (Inr p)
        with assms eng f True
        have "s0 = s\<lparr>processing := True, error := None\<rparr>"
          and "r = \<lparr>pending = PendingFetch, engine_run = eng, file_run = f, params_run = p\<rparr>"
          by (simp_all add: startRun_def)
        with eng f True Inr show ?thesis by (rule that)
      qed
    qed
  qed
qed

lemmas run_defs = handleCompress_def compressBody_def resumeRun_def catchFinally_def

text \<open>
  Resumed six times with nothing in between, a started run ends, and ends as
  \<open>handleCompress\<close> does: the two descriptions of the function agree.
\<close>

lemma runToEnd_handleCompress:
  assumes "startRun t s = (s0, Some r)"
  shows "runToEnd 6 t ff r s0 w = Some (handleCompress t ff s w)"
proof -
  from assms obtain eng f p where a: "ffmpeg s = Some eng" "file s = Some f" "loaded s"
    "resolve (selectedPreset s) (customBitrate s) (customSampleRate s) (customChannels s) = Inr p"
    "s0 = s\<lparr>processing := True, error := None\<rparr>"
    "r = \<lparr>pending = PendingFetch, engine_run = eng, file_run = f, params_run = p\<rparr>"
    by (rule startRun_Some)
  have six: "(6::nat) = Suc (Suc (Suc (Suc (Suc (Suc 0)))))" by simp
  show ?thesis
  proof (cases "ff f")
    case (Inl e)
    then show ?thesis unfolding six by (simp add: a run_defs)
  next
    case (Inr input)
    note fetched = this
    obtain e1 w1 where wr: "callWriteFile eng ''input.mp3'' input w = (e1, w1)"
      by (cases "callWriteFile eng ''input.mp3'' input w") auto
    show ?thesis
    proof (cases e1)
      case (Some e)
      with fetched wr show ?thesis unfolding six by (simp add: a run_defs)
    next
      case None
      note written = wr [unfolded None]
      obtain e2 w2 where ex: "callExec eng (buildArgs p) w1 = (e2, w2)"
        by (cases "callExec eng (buildArgs p) w1") auto
      show ?thesis
      proof (cases e2)
        case (Some e)
        with fetched written ex show ?thesis unfolding six by (simp add: a run_defs)
      next
        case None
        note executed = ex [unfolded None]
        obtain o3 w3 where rd: "callReadFile eng ''output.mp3'' w2 = (o3, w3)"
          by (cases "callReadFile eng ''output.mp3'' w2") auto
        show ?thesis
        proof (cases o3)
          case (Inl e)
          with fetched written executed rd show ?thesis unfolding six by (simp add: a run_defs)
        next
          case (Inr out)
          note read = rd [unfolded Inr]
          obtain e4 w4 where d1: "callDeleteFile eng ''input.mp3'' w3 = (e4, w4)"
            by (cases "callDeleteFile eng ''input.mp3'' w3") auto
          show ?thesis
          proof (cases e4)
            case (Some e)
            with fetched written executed read d1 show ?thesis
              unfolding six by (simp add: a run_defs)
          next
            case None
            note deleted = d1 [unfolded None]
            obtain e5 w5 where d2: "callDeleteFile eng ''output.mp3'' w4 = (e5, w5)"
              by (cases "callDeleteFile eng ''output.mp3'' w4") auto
            from fetched written executed read deleted d2 show ?thesis
              unfolding six by (cases e5) (simp_all add: a run_defs)
          qed
        qed
      qed
    qed
  qed
qed

lemma startRun_None:
  assumes "startRun t s = (s0, None)"
  shows "handleCompress t ff s w = (s0, w)"
proof (cases "ffmpeg s")
  case None
  with assms show ?thesis by (simp add: startRun_def handleCompress_def)
next
  case (Some eng)
  note eng = this
  show ?thesis
  proof (cases "file s")
    case None
    with assms eng show ?thesis by (simp add: startRun_def handleCompress_def)
  next
    case (Some f)
    note f = this
    show ?thesis
    proof (cases "loaded s")
      case False
      with assms eng f show ?thesis by (simp add: startRun_def handleCompress_def)
    next
      case True
      show ?thesis
      proof (cases "resolve (selectedPreset s) (customBitrate s) (customSampleRate s) (customChannels s)")
        case (Inl e)
        with assms eng f True show ?thesis by (simp add: startRun_def run_defs)
      next
        case (Inr p)
        with assms eng f True show ?thesis by (simp add: startRun_def)
      qed
    qed
  qed
qed

text \<open>Each call on the engine is recorded after those made before.\<close>

lemma calls_after:
  "calls (snd (callWriteFile eng n d w)) = calls w @ [WriteFile n d]"
  "calls (snd (callExec eng args w)) = calls w @ [Exec args]"
  "calls (snd (callReadFile eng n w)) = calls w @ [ReadFile n]"
  "calls (snd (callDeleteFile eng n w)) = calls w @ [DeleteFile n]"
  by (simp_all add: engine_calls split: prod.splits)

text \<open>
  The calls of a run that passes the guard, resolves its parameters and fetches its
  input: \<open>writeFile\<close>; then, if that completed, \<open>exec\<close> with the argument list;
  then \<open>readFile\<close> and the two deletions, as far as the run gets.
\<close>

lemma handleCompress_calls:
  assumes "ffmpeg s = Some eng" and "file s = Some f" and "loaded s"
    and "resolve (selectedPreset s) (customBitrate s) (customSampleRate s) (customChannels s)
           = Inr p"
    and "fetchFile f = Inr input"
  shows "\<exists>rest. calls (snd (handleCompress t fetchFile s w)) =
                  calls w @ WriteFile ''input.mp3'' input # rest
           \<and> (fst (callWriteFile eng ''input.mp3'' input w) = None \<longrightarrow>
                (\<exists>rest'. rest = Exec (buildArgs p) # rest'
                   \<and> prefix rest' [ReadFile ''output.mp3'', DeleteFile ''input.mp3'',
                                    DeleteFile ''output.mp3'']))"
proof -
  note a = assms
  obtain e1 w1 where wr: "callWriteFile eng ''input.mp3'' input w = (e1, w1)"
    by (cases "callWriteFile eng ''input.mp3'' input w") auto
  from calls_after(1) [of eng "''input.mp3''" input w] wr
  have c1: "calls w1 = calls w @ [WriteFile ''input.mp3'' input]" by simp
  show ?thesis
  proof (cases e1)
    case (Some e)
    with wr have "snd (handleCompress t fetchFile s w) = w1"
      by (simp add: a run_defs)
    with c1 wr Some show ?thesis by simp
  next
    case None
    note written = wr [unfolded None]
    obtain e2 w2 where ex: "callExec eng (buildArgs p) w1 = (e2, w2)"
      by (cases "callExec eng (buildArgs p) w1") auto
    from calls_after(2) [of eng "buildArgs p" w1] ex
    have c2: "calls w2 = calls w1 @ [Exec (buildArgs p)]" by simp
    show ?thesis
    proof (cases e2)
      case (Some e)
      with written ex have "snd (handleCompress t fetchFile s w) = w2"
        by (simp add: a run_defs)
      with c1 c2 show ?thesis by simp
    next
      case None
      note executed = ex [unfolded None]
      obtain o3 w3 where rd: "callReadFile eng ''output.mp3'' w2 = (o3, w3)"
        by (cases "callReadFile eng ''output.mp3'' w2") auto
      from calls_after(3) [of eng "''output.mp3''" w2] rd
      have c3: "calls w3 = calls w2 @ [ReadFile ''output.mp3'']" by simp
      show ?thesis
      proof (cases o3)
        case (Inl e)
        with written executed rd have "snd (handleCompress t fetchFile s w) = w3"
          by (simp add: a run_defs)
        with c1 c2 c3 show ?thesis by simp
      next
        case (Inr out)
        note read = rd [unfolded Inr]
        obtain e4 w4 where d1: "callDeleteFile eng ''input.mp3'' w3 = (e4, w4)"
          by (cases "callDeleteFile eng ''input.mp3'' w3") auto
        from calls_after(4) [of eng "''input.mp3''" w3] d1
        have c4: "calls w4 = calls w3 @ [DeleteFile ''input.mp3'']" by simp
        show ?thesis
        proof (cases e4)
          case (Some e)
          with written executed read d1 have "snd (handleCompress t fetchFile s w) = w4"
            by (simp add: a run_defs)
          with c1 c2 c3 c4 show ?thesis by simp
        next
          case None
          note deleted = d1 [unfolded None]
          obtain e5 w5 where d2: "callDeleteFile eng ''output.mp3'' w4 = (e5, w5)"
            by (cases "callDeleteFile eng ''output.mp3'' w4") auto
          from calls_after(4) [of eng "''output.mp3''" w4] d2
          have c5: "calls w5 = calls w4 @ [DeleteFile ''output.mp3'']" by simp
          from written executed read deleted d2
          have "snd (handleCompress t fetchFile s w) = w5"
            by (cases e5) (simp_all add: a run_defs)
          with c1 c2 c3 c4 c5 show ?thesis by simp
        qed
      qed
    qed
  qed
qed

text \<open>\<open>handleCompress\<close> does not read \<open>processing\<close>: once the guard is passed, the
  flag it is called with makes no difference.\<close>

lemma handleCompress_processing:
  assumes "ffmpeg s \<noteq> None" and "file s \<noteq> None" and "loaded s"
  shows "handleCompress t fetchFile (s\<lparr>processing := b\<rparr>) w = handleCompress t fetchFile s w"
  using assms by (auto simp: handleCompress_def)

subsection \<open>Invariants of the event system\<close>

lemma resumeRun_frame:
  assumes "resumeRun t ff r s w = (s', w', nxt)"
  shows "processing s' = (processing s \<and> nxt \<noteq> None)"
    and "selectedPreset s' = selectedPreset s"
    and "customBitrate s' = customBitrate s"
    and "customSampleRate s' = customSampleRate s"
    and "customChannels s' = customChannels s"
  using assms
  by (cases "pending r";
      auto simp: resumeRun_def catchFinally_def split: prod.splits sum.splits option.splits)+

lemma startRun_frame:
  assumes "startRun t s = (s', started)"
  shows "\<not> processing s \<Longrightarrow> processing s' = (started \<noteq> None)"
    and "selectedPreset s' = selectedPreset s"
    and "customBitrate s' = customBitrate s"
    and "customSampleRate s' = customSampleRate s"
    and "customChannels s' = customChannels s"
  using assms
  by (auto simp: startRun_def catchFinally_def Let_def split: option.splits sum.splits if_splits)

lemma selectCustom_customLegal:
  assumes "customLegal s"
  shows "customLegal (selectCustomBitrate i s)"
    and "customLegal (selectCustomSampleRate i s)"
    and "customLegal (selectCustomChannels i s)"
  using assms
  by (simp_all add: customLegal_def selectCustomBitrate_def selectCustomSampleRate_def
      selectCustomChannels_def)

lemma event_oneRun:
  assumes "event t ff y y'" and "oneRun y"
  shows "oneRun y'"
  using assms
proof (cases rule: event.cases)
  case (compressClicked s' started)
  from compressClicked(3) have idle: "\<not> processing (app y)"
    by (simp add: compressBtnDisabled_def)
  with assms(2) have none: "runs y = []" by (simp add: oneRun_def)
  from compressClicked(4) idle
  have "processing s' = (started \<noteq> None)" by (rule startRun_frame(1))
  with none compressClicked(1) show ?thesis
    by (cases started) (simp_all add: oneRun_def)
next
  case (runResumed i s' w' nxt)
  from runResumed(2) assms(2) have one: "runs y = [runs y ! 0]" and i: "i = 0"
    and busy: "processing (app y)"
    by (cases "runs y"; simp add: oneRun_def)+
  from resumeRun_frame(1) [OF runResumed(3)] busy
  have "processing s' = (nxt \<noteq> None)" by simp
  with runResumed(1) one i show ?thesis
    by (cases nxt; cases "runs y") (simp_all add: oneRun_def dropAt_def)
qed (simp_all add: oneRun_def handleFileSelect_begin_def handleFileSelect_end_def
      selectCustomBitrate_def selectCustomSampleRate_def selectCustomChannels_def
      split: sum.splits)

lemma reachable_oneRun:
  assumes "reachable t ff y" shows "oneRun y"
  using assms
proof (induction rule: reachable.induct)
  case initial
  show ?case by (simp add: oneRun_def initialSystem_def initialState_def)
next
  case (after y y')
  from after.hyps(2) after.IH show ?case by (rule event_oneRun)
qed

lemma event_customLegal:
  assumes "event t ff y y'" and "customLegal (app y)"
  shows "customLegal (app y')"
  using assms
proof (cases rule: event.cases)
  case (compressClicked s' started)
  from startRun_frame(3-5) [OF compressClicked(4)] assms(2) compressClicked(1)
  show ?thesis by (simp add: customLegal_def)
next
  case (runResumed i s' w' nxt)
  from resumeRun_frame(3-5) [OF runResumed(3)] assms(2) runResumed(1)
  show ?thesis by (simp add: customLegal_def)
next
  case (bitrateSelected i)
  with assms(2) show ?thesis by (simp add: selectCustom_customLegal)
next
  case (sampleRateSelected i)
  with assms(2) show ?thesis by (simp add: selectCustom_customLegal)
next
  case (channelsSelected i)
  with assms(2) show ?thesis by (simp add: selectCustom_customLegal)
qed (simp_all add: customLegal_def handleFileSelect_begin_def handleFileSelect_end_def
      split: sum.splits)

lemma reachable_customLegal:
  assumes "reachable t ff y" shows "customLegal (app y)"
  using assms
proof (induction rule: reachable.induct)
  case initial
  show ?case
    by (simp add: customLegal_def initialSystem_def initialState_def bitrateOptions_def
        sampleRateOptions_def channelOptions_def)
next
  case (after y y')
  from after.hyps(2) after.IH show ?case by (rule event_customLegal)
qed

lemma event_presetValid:
  assumes "event t ff y y'" and "presetValid (app y)"
  shows "presetValid (app y')"
  using assms
proof (cases rule: event.cases)
  case (compressClicked s' started)
  from startRun_frame(2) [OF compressClicked(4)] assms(2) compressClicked(1)
  show ?thesis by (simp add: presetValid_def)
next
  case (runResumed i s' w' nxt)
  from resumeRun_frame(2) [OF runResumed(3)] assms(2) runResumed(1)
  show ?thesis by (simp add: presetValid_def)
qed (simp_all add: presetValid_def handleFileSelect_begin_def handleFileSelect_end_def
      selectCustomBitrate_def selectCustomSampleRate_def selectCustomChannels_def
      split: sum.splits)

lemma reachable_presetValid:
  assumes "reachable t ff y" shows "presetValid (app y)"
  using assms
proof (induction rule: reachable.induct)
  case initial
  show ?case
    by (simp add: presetValid_def initialSystem_def initialState_def presets_def)
next
  case (after y y')
  from after.hyps(2) after.IH show ?case by (rule event_presetValid)
qed

lemma customLegal_nonzero:
  assumes "customLegal s" shows "customSampleRate s \<noteq> 0" and "customChannels s \<noteq> 0"
  using assms
  by (auto simp: customLegal_def sampleRateOptions_def channelOptions_def)

text \<open>In every run the component can start, no parameter is 0, and the argument list
  is the list of the specification.\<close>

lemma reachable_specArgs:
  assumes "reachable t ff y" and "startRun t (app y) = (s', Some r)"
  shows "buildArgs (params_run r) = specArgs (params_run r)"
proof -
  from assms(1) have "customLegal (app y)" by (rule reachable_customLegal)
  then have c: "customSampleRate (app y) \<noteq> 0" "customChannels (app y) \<noteq> 0"
    by (rule customLegal_nonzero)+
  from assms(2) obtain q where q: "resolve (selectedPreset (app y)) (customBitrate (app y))
        (customSampleRate (app y)) (customChannels (app y)) = Inr q"
    and r: "params_run r = q"
    by (rule startRun_Some) simp
  from q c have nz: "sampleRate_params q \<noteq> Some 0 \<and> channels_params q \<noteq> Some 0"
    by (rule resolve_nonzero)
  show ?thesis
    unfolding r by (rule buildArgs_shape [OF conjunct1 [OF nz] conjunct2 [OF nz]])
qed

lemma suffix_song: "suffix ''.mp3'' ''song.mp3''"
  by (rule suffixI [of _ "''song''"]) simp

lemma acceptsFile_sampleFile: "acceptsFile sampleFile"
  unfolding acceptsFile_def by (rule disjI2) (simp only: sampleFile_def File.simps suffix_song)

lemma reachable_readySystem: "reachable t ff readySystem"
proof -
  let ?eng = "memEngine execCopy"
  let ?y1 = "initialSystem\<lparr>app := (app initialSystem)\<lparr>ffmpeg := Some ?eng, loaded := True,
               loading := False\<rparr>\<rparr>"
  let ?y2 = "?y1\<lparr>app := handleFileSelect_begin t sampleFile (app ?y1),
               parsing := parsing ?y1 @ (if acceptsFile sampleFile then [sampleFile] else [])\<rparr>"
  have "event t ff initialSystem ?y1"
    by (rule event.engineLoaded)
  with reachable.initial have "reachable t ff ?y1" by (rule reachable.after)
  moreover have "event t ff ?y1 ?y2" by (rule event.fileSelected)
  ultimately have "reachable t ff ?y2" by (rule reachable.after)
  moreover have "?y2 = readySystem"
    by (simp add: readySystem_def handleFileSelect_begin_def acceptsFile_sampleFile
        initialSystem_def initialState_def readyState_def)
  ultimately show ?thesis by simp
qed

lemma readySystem_fields:
  "app readySystem = readyState (memEngine execCopy) sampleFile" "runs readySystem = []"
  by (simp_all add: readySystem_def)

lemma startRun_ready:
  "startRun t (readyState (memEngine execCopy) sampleFile) = (busyState, Some mediumRun)"
  by (simp add: startRun_def readyState_def initialState_def resolve_medium busyState_def
      mediumRun_def)

lemma reachable_busySystem: "reachable t ff busySystem"
proof -
  let ?y3 = "readySystem\<lparr>app := busyState,
               runs := runs readySystem @ (case Some mediumRun of None \<Rightarrow> [] | Some r \<Rightarrow> [r])\<rparr>"
  have "event t ff readySystem ?y3"
  proof (rule event.compressClicked)
    show "compressBtnRendered (app readySystem)"
      by (simp add: readySystem_fields compressBtnRendered_def readyState_def initialState_def)
    show "\<not> compressBtnDisabled (app readySystem)"
      by (simp add: readySystem_fields compressBtnDisabled_def readyState_def initialState_def)
    show "startRun t (app readySystem) = (busyState, Some mediumRun)"
      by (simp add: readySystem_fields startRun_ready)
  qed
  with reachable_readySystem have "reachable t ff ?y3" by (rule reachable.after)
  moreover have "?y3 = busySystem"
    by (simp add: busySystem_def readySystem_fields)
  ultimately show ?thesis by simp
qed

lemma reachable_customSystem: "reachable t ff customSystem"
proof -
  let ?s = "readyState (memEngine execCopy) sampleFile"
  let ?y3 = "readySystem\<lparr>app := (app readySystem)\<lparr>selectedPreset := id_preset (presets ! 7)\<rparr>\<rparr>"
  let ?y4 = "?y3\<lparr>app := selectCustomBitrate 0 (app ?y3)\<rparr>"
  have "event t ff readySystem ?y3"
  proof (rule event.presetClicked)
    show "presets ! 7 \<in> set presets" by (rule nth_mem) (simp add: presets_def)
    show "file (app readySystem) \<noteq> None"
      by (simp add: readySystem_fields readyState_def initialState_def)
    show "result (app readySystem) = None"
      by (simp add: readySystem_fields readyState_def initialState_def)
  qed
  with reachable_readySystem have "reachable t ff ?y3" by (rule reachable.after)
  moreover have "event t ff ?y3 ?y4" by (rule event.bitrateSelected)
  ultimately have "reachable t ff ?y4" by (rule reachable.after)
  moreover have "?y4 = customSystem"
    by (simp add: customSystem_def readySystem_fields presets_custom selectCustomBitrate_def
        customControlsEnabled_def readyState_def initialState_def bitrateOptions_def)
  ultimately show ?thesis by simp
qed

subsection \<open>The claims\<close>

text \<open>
  Claim C1, at a run whose execution produces no output file (the engine's workspace
  is an in-memory file system, the preset is \<open>medium\<close>): reading \<open>output.mp3\<close>
  throws, the \<open>catch\<close> block stores the message, the \<open>finally\<close> block clears
  \<open>processing\<close>, and the run returns with \<open>input.mp3\<close> still in the workspace:
  \<open>deleteFile\<close> is called on neither name.
\<close>

theorem failed_run_leaves_input:
  "files (snd (handleCompress translate fetchContent
                 (readyState (memEngine execNoOutput) sampleFile) emptyWorld)) ''input.mp3''
     = Some (bytes_file sampleFile)
   \<and> calls (snd (handleCompress translate fetchContent
                 (readyState (memEngine execNoOutput) sampleFile) emptyWorld))
     = [WriteFile ''input.mp3'' (bytes_file sampleFile),
        Exec [''-i'', ''input.mp3'', ''-b:a'', ''128k'', ''-ar'', ''44100'', ''-ac'', ''2'',
              ''-map'', ''0:a'', ''-y'', ''output.mp3''],
        ReadFile ''output.mp3'']
   \<and> error (fst (handleCompress translate fetchContent
                 (readyState (memEngine execNoOutput) sampleFile) emptyWorld))
     = Some ''compressionFailed FS error''
   \<and> \<not> processing (fst (handleCompress translate fetchContent
                 (readyState (memEngine execNoOutput) sampleFile) emptyWorld))"
proof -
  let ?s = "readyState (memEngine execNoOutput) sampleFile"
  have "handleCompress translate fetchContent ?s emptyWorld =
      (?s\<lparr>processing := True, error := Some ''compressionFailed FS error'', processing := False\<rparr>,
       \<lparr>files = [''input.mp3'' \<mapsto> bytes_file sampleFile],
        calls = [WriteFile ''input.mp3'' (bytes_file sampleFile),
                 Exec [''-i'', ''input.mp3'', ''-b:a'', ''128k'', ''-ar'', ''44100'', ''-ac'', ''2'',
                       ''-map'', ''0:a'', ''-y'', ''output.mp3''],
                 ReadFile ''output.mp3'']\<rparr>)"
    unfolding handleCompress_def
    by (simp add: readyState_def initialState_def compressBody_no_output translate_def)
  then show ?thesis by simp
qed

text \<open>
  Claim C2, as the code has it. In every state the component can reach, at most one
  run is in flight, and \<open>processing\<close> is set exactly while one is; the compress
  button, the only caller of \<open>handleCompress\<close>, is then disabled, and a click calls
  nothing on the engine and changes nothing. \<open>handleCompress\<close> itself returns at
  once when the engine, the file or \<open>loaded\<close> is missing, and it does not read
  \<open>processing\<close>: with the three present it does the same whatever the flag is, and
  with a preset that resolves and a file that can be fetched it stages its input.
\<close>

theorem one_run_in_flight:
  "(reachable t ff y \<longrightarrow> length (runs y) \<le> 1 \<and> processing (app y) = (runs y \<noteq> []))
   \<and> (reachable t ff y \<and> runs y \<noteq> [] \<longrightarrow> compressBtnDisabled (app y))
   \<and> (processing s \<longrightarrow> clickCompressBtn t ff s w = (s, w))
   \<and> (ffmpeg s = None \<or> file s = None \<or> \<not> loaded s \<longrightarrow> handleCompress t ff s w = (s, w))
   \<and> (ffmpeg s \<noteq> None \<and> file s \<noteq> None \<and> loaded s \<longrightarrow>
        handleCompress t ff (s\<lparr>processing := b\<rparr>) w = handleCompress t ff s w)
   \<and> (ffmpeg s = Some eng \<and> file s = Some f \<and> loaded s
        \<and> resolve (selectedPreset s) (customBitrate s) (customSampleRate s) (customChannels s)
            = Inr p
        \<and> ff f = Inr input \<longrightarrow>
        (\<exists>rest. calls (snd (handleCompress t ff s w)) =
                  calls w @ WriteFile ''input.mp3'' input # rest))"
proof (intro conjI impI)
  assume "reachable t ff y"
  then have "oneRun y" by (rule reachable_oneRun)
  then show "length (runs y) \<le> 1" and "processing (app y) = (runs y \<noteq> [])"
    by (simp_all add: oneRun_def)
next
  assume a: "reachable t ff y \<and> runs y \<noteq> []"
  then have "reachable t ff y" by simp
  then have "oneRun y" by (rule reachable_oneRun)
  with a show "compressBtnDisabled (app y)"
    by (simp add: oneRun_def compressBtnDisabled_def)
next
  assume "processing s"
  then show "clickCompressBtn t ff s w = (s, w)"
    by (simp add: clickCompressBtn_def compressBtnDisabled_def)
next
  assume "ffmpeg s = None \<or> file s = None \<or> \<not> loaded s"
  then show "handleCompress t ff s w = (s, w)"
    by (auto simp: handleCompress_def split: option.splits)
next
  assume "ffmpeg s \<noteq> None \<and> file s \<noteq> None \<and> loaded s"
  then have "ffmpeg s \<noteq> None" and "file s \<noteq> None" and "loaded s" by simp_all
  then show "handleCompress t ff (s\<lparr>processing := b\<rparr>) w = handleCompress t ff s w"
    by (rule handleCompress_processing)
next
  assume "ffmpeg s = Some eng \<and> file s = Some f \<and> loaded s
        \<and> resolve (selectedPreset s) (customBitrate s) (customSampleRate s) (customChannels s)
            = Inr p
        \<and> ff f = Inr input"
  then have "ffmpeg s = Some eng" and "file s = Some f" and "loaded s"
    and "resolve (selectedPreset s) (customBitrate s) (customSampleRate s) (customChannels s)
            = Inr p"
    and "ff f = Inr input"
    by simp_all
  from handleCompress_calls [where fetchFile = ff and t = t and w = w, OF this]
  show "\<exists>rest. calls (snd (handleCompress t ff s w)) =
                  calls w @ WriteFile ''input.mp3'' input # rest"
    by blast
qed

theorem one_run_in_flight_witness:
  "reachable translate fetchContent busySystem
   \<and> runs busySystem \<noteq> []
   \<and> length (runs busySystem) \<le> 1
   \<and> processing (app busySystem)
   \<and> compressBtnDisabled (app busySystem)
   \<and> clickCompressBtn translate fetchContent busyState stagedWorld = (busyState, stagedWorld)
   \<and> ffmpeg initialState = None
   \<and> handleCompress translate fetchContent initialState emptyWorld = (initialState, emptyWorld)
   \<and> ffmpeg busyState = Some (memEngine execCopy) \<and> file busyState = Some sampleFile
   \<and> loaded busyState \<and> processing busyState
   \<and> resolve (selectedPreset busyState) (customBitrate busyState) (customSampleRate busyState)
        (customChannels busyState) =
      Inr \<lparr>bitrate_params = 128, sampleRate_params = Some 44100, channels_params = Some 2\<rparr>
   \<and> fetchContent sampleFile = Inr (bytes_file sampleFile)
   \<and> handleCompress translate fetchContent (busyState\<lparr>processing := False\<rparr>) stagedWorld =
      handleCompress translate fetchContent busyState stagedWorld
   \<and> (\<exists>rest. calls (snd (handleCompress translate fetchContent busyState stagedWorld)) =
        calls stagedWorld @ WriteFile ''input.mp3'' (bytes_file sampleFile) # rest)"
proof -
  let ?p = "\<lparr>bitrate_params = 128, sampleRate_params = Some 44100, channels_params = Some 2\<rparr>"
  note inst = one_run_in_flight [where t = translate and ff = fetchContent and y = busySystem
      and s = busyState and w = stagedWorld and b = False and eng = "memEngine execCopy"
      and f = sampleFile and p = ?p and input = "bytes_file sampleFile"]
  note inst0 = one_run_in_flight [where t = translate and ff = fetchContent and y = busySystem
      and s = initialState and w = emptyWorld]
  have r: "reachable translate fetchContent busySystem" by (rule reachable_busySystem)
  have n: "runs busySystem \<noteq> []" by (simp add: busySystem_def)
  have p: "processing busyState" by (rule busyState_fields)
  have z: "ffmpeg initialState = None" by (simp add: initialState_def)
  have e: "ffmpeg busyState = Some (memEngine execCopy)" by (rule busyState_fields)
  have f: "file busyState = Some sampleFile" by (rule busyState_fields)
  have l: "loaded busyState" by (rule busyState_fields)
  have v: "resolve (selectedPreset busyState) (customBitrate busyState)
      (customSampleRate busyState) (customChannels busyState) = Inr ?p"
    by (simp add: busyState_fields resolve_medium)
  have c: "fetchContent sampleFile = Inr (bytes_file sampleFile)"
    by (simp add: fetchContent_def)
  have e': "ffmpeg busyState \<noteq> None" and f': "file busyState \<noteq> None"
    by (simp_all add: busyState_fields)
  from inst r have 1: "length (runs busySystem) \<le> 1 \<and> processing (app busySystem) = (runs busySystem \<noteq> [])"
    by (rule conjunct1 [THEN mp])
  from 1 n have 2: "processing (app busySystem)" by simp
  have 3: "compressBtnDisabled (app busySystem)"
    by (rule inst [THEN conjunct2, THEN conjunct1, THEN mp]) (intro conjI r n)
  have 4: "clickCompressBtn translate fetchContent busyState stagedWorld = (busyState, stagedWorld)"
    by (rule inst [THEN conjunct2, THEN conjunct2, THEN conjunct1, THEN mp, OF p])
  have 5: "handleCompress translate fetchContent initialState emptyWorld = (initialState, emptyWorld)"
    by (rule inst0 [THEN conjunct2, THEN conjunct2, THEN conjunct2, THEN conjunct1, THEN mp,
          OF disjI1, OF z])
  have 6: "handleCompress translate fetchContent (busyState\<lparr>processing := False\<rparr>) stagedWorld =
      handleCompress translate fetchContent busyState stagedWorld"
    by (rule inst [THEN conjunct2, THEN conjunct2, THEN conjunct2, THEN conjunct2,
          THEN conjunct1, THEN mp]) (intro conjI e' f' l)
  have 7: "\<exists>rest. calls (snd (handleCompress translate fetchContent busyState stagedWorld)) =
        calls stagedWorld @ WriteFile ''input.mp3'' (bytes_file sampleFile) # rest"
    by (rule inst [THEN conjunct2, THEN conjunct2, THEN conjunct2, THEN conjunct2,
          THEN conjunct2, THEN mp]) (intro conjI e f l v c)
  show ?thesis by (intro conjI r n conjunct1 [OF 1] 2 3 4 z 5 e f l p v c 6 7)
qed

text \<open>
  Claim C2 as stated fails at \<open>handleCompress\<close> itself. With a first run in flight
  (\<open>processing\<close> set, its input staged), a second call is not rejected: it passes
  the guard and becomes a second run in flight; left to run, it stages its own input
  over the first one's, executes, retrieves, and deletes both files from under the
  first run.
\<close>

theorem second_run_not_rejected:
  "processing busyState
   \<and> startRun translate busyState = (busyState, Some mediumRun)
   \<and> calls stagedWorld = [WriteFile ''input.mp3'' (bytes_file sampleFile)]
   \<and> calls (snd (handleCompress translate fetchContent busyState stagedWorld)) =
       [WriteFile ''input.mp3'' (bytes_file sampleFile),
        WriteFile ''input.mp3'' (bytes_file sampleFile),
        Exec [''-i'', ''input.mp3'', ''-b:a'', ''128k'', ''-ar'', ''44100'', ''-ac'', ''2'',
              ''-map'', ''0:a'', ''-y'', ''output.mp3''],
        ReadFile ''output.mp3'', DeleteFile ''input.mp3'', DeleteFile ''output.mp3'']"
proof -
  have p: "processing busyState" by (rule busyState_fields)
  have g: "startRun translate busyState = (busyState, Some mediumRun)"
    by (simp add: startRun_def busyState_def readyState_def initialState_def resolve_medium
        mediumRun_def)
  have s: "calls stagedWorld = [WriteFile ''input.mp3'' (bytes_file sampleFile)]"
    by (simp add: stagedWorld_def)
  have "calls (snd (handleCompress translate fetchContent busyState stagedWorld)) =
       calls stagedWorld @
       [WriteFile ''input.mp3'' (bytes_file sampleFile),
        Exec [''-i'', ''input.mp3'', ''-b:a'', ''128k'', ''-ar'', ''44100'', ''-ac'', ''2'',
              ''-map'', ''0:a'', ''-y'', ''output.mp3''],
        ReadFile ''output.mp3'', DeleteFile ''input.mp3'', DeleteFile ''output.mp3'']"
    by (rule handleCompress_copy(1) [OF busyState_fields(1-4)])
  then have c: "calls (snd (handleCompress translate fetchContent busyState stagedWorld)) =
       [WriteFile ''input.mp3'' (bytes_file sampleFile),
        WriteFile ''input.mp3'' (bytes_file sampleFile),
        Exec [''-i'', ''input.mp3'', ''-b:a'', ''128k'', ''-ar'', ''44100'', ''-ac'', ''2'',
              ''-map'', ''0:a'', ''-y'', ''output.mp3''],
        ReadFile ''output.mp3'', DeleteFile ''input.mp3'', DeleteFile ''output.mp3'']"
    unfolding s by simp
  show ?thesis by (intro conjI p g s c)
qed

text \<open>
  Claim C3. When the metadata load succeeds with duration \<open>d\<close>, the file is read and
  \<open>decodeAudioData\<close> rejects, the promise resolves (it is not rejected) with sample
  rate 44100 and 2 channels, with the duration \<open>d\<close> and with the bit rate computed
  from the size and \<open>d\<close> before the decode was tried.
\<close>

theorem parseAudioInfo_decode_fallback:
  assumes "loadMetadata env f = Some d"
    and "readAsArrayBuffer env f = Some buf"
    and "decodeAudioData env buf = None"
  shows "fst (parseAudioInfo t env f) =
           Inr \<lparr>name = name_file f, size_info = size_file f, duration = d,
                bitrate_info = originalBitrate (size_file f) d,
                sampleRate_info = 44100, channels_info = 2\<rparr>"
  by (simp add: parseAudioInfo_decode_error [OF assms])

theorem parseAudioInfo_decode_fallback_witness:
  "loadMetadata browserDecodeFails sampleFile = Some (Num 2)
   \<and> readAsArrayBuffer browserDecodeFails sampleFile = Some (bytes_file sampleFile)
   \<and> decodeAudioData browserDecodeFails (bytes_file sampleFile) = None
   \<and> fst (parseAudioInfo translate browserDecodeFails sampleFile) =
         Inr \<lparr>name = ''song.mp3'', size_info = 3000, duration = Num 2, bitrate_info = Num 12,
              sampleRate_info = 44100, channels_info = 2\<rparr>"
proof -
  have a: "loadMetadata browserDecodeFails sampleFile = Some (Num 2)"
    and b: "readAsArrayBuffer browserDecodeFails sampleFile = Some (bytes_file sampleFile)"
    and c: "decodeAudioData browserDecodeFails (bytes_file sampleFile) = None"
    by (simp_all add: browserDecodeFails_def)
  from parseAudioInfo_decode_fallback [OF a b c, of translate]
  have "fst (parseAudioInfo translate browserDecodeFails sampleFile) =
         Inr \<lparr>name = ''song.mp3'', size_info = 3000, duration = Num 2, bitrate_info = Num 12,
              sampleRate_info = 44100, channels_info = 2\<rparr>"
    by (simp add: size_sampleFile originalBitrate_sample) (simp add: sampleFile_def)
  then show ?thesis by (intro conjI a b c)
qed




text \<open>
  Claim C5, as the code has it. With the custom preset selected, the resolved
  parameters are the stored custom bit rate, sample rate and channel count, whatever
  they are: nothing is validated and nothing is rejected. In every state the
  component can reach, the three values are within the enumerated sets, because the
  controls offer exactly these sets and the initial values (128, 44100, 2) are in them.
\<close>

theorem resolve_custom_verbatim:
  "resolve ''custom'' cb cs cc =
     Inr \<lparr>bitrate_params = cb, sampleRate_params = Some cs, channels_params = Some cc\<rparr>
   \<and> set bitrateOptions = {32, 48, 64, 80, 96, 112, 128, 160, 192, 256, 320}
   \<and> set sampleRateOptions = {11025, 16000, 22050, 32000, 44100, 48000}
   \<and> set channelOptions = {1, 2}
   \<and> (reachable t ff y \<longrightarrow>
        customBitrate (app y) \<in> set bitrateOptions
        \<and> customSampleRate (app y) \<in> set sampleRateOptions
        \<and> customChannels (app y) \<in> set channelOptions)"
proof (intro conjI impI)
  show "resolve ''custom'' cb cs cc =
     Inr \<lparr>bitrate_params = cb, sampleRate_params = Some cs, channels_params = Some cc\<rparr>"
    by (simp add: resolve_def)
  show "set bitrateOptions = {32, 48, 64, 80, 96, 112, 128, 160, 192, 256, 320}"
    by (auto simp: bitrateOptions_def)
  show "set sampleRateOptions = {11025, 16000, 22050, 32000, 44100, 48000}"
    by (auto simp: sampleRateOptions_def)
  show "set channelOptions = {1, 2}"
    by (auto simp: channelOptions_def)
next
  assume "reachable t ff y"
  then have "customLegal (app y)" by (rule reachable_customLegal)
  then show "customBitrate (app y) \<in> set bitrateOptions"
    and "customSampleRate (app y) \<in> set sampleRateOptions"
    and "customChannels (app y) \<in> set channelOptions"
    by (simp_all add: customLegal_def)
qed

theorem resolve_custom_verbatim_witness:
  "reachable translate fetchContent customSystem
   \<and> selectedPreset (app customSystem) = ''custom''
   \<and> customBitrate (app customSystem) = 320
   \<and> (320::int) \<in> set bitrateOptions"
proof -
  have r: "reachable translate fetchContent customSystem" by (rule reachable_customSystem)
  have s: "selectedPreset (app customSystem) = ''custom''"
    and v: "customBitrate (app customSystem) = 320"
    by (simp_all add: customSystem_def)
  from resolve_custom_verbatim [of 128 44100 2 translate fetchContent customSystem] r
  have "customBitrate (app customSystem) \<in> set bitrateOptions
        \<and> customSampleRate (app customSystem) \<in> set sampleRateOptions
        \<and> customChannels (app customSystem) \<in> set channelOptions"
    by (rule conjunct2 [THEN conjunct2, THEN conjunct2, THEN conjunct2, THEN mp])
  then have "customBitrate (app customSystem) \<in> set bitrateOptions" by (rule conjunct1)
  then have m: "(320::int) \<in> set bitrateOptions" unfolding v .
  show ?thesis by (intro conjI r s v m)
qed

text \<open>
  Claim C5 as stated fails where it says that a value outside its set is rejected:
  500 is no legal bit rate, and with the custom preset it resolves to the bit rate
  500 and reaches the argument list as \<open>500k\<close>.
\<close>

theorem custom_value_not_rejected:
  "500 \<notin> set bitrateOptions
   \<and> resolve ''custom'' 500 44100 2 =
       Inr \<lparr>bitrate_params = 500, sampleRate_params = Some 44100, channels_params = Some 2\<rparr>
   \<and> buildArgs \<lparr>bitrate_params = 500, sampleRate_params = Some 44100, channels_params = Some 2\<rparr> =
       [''-i'', ''input.mp3'', ''-b:a'', ''500k'', ''-ar'', ''44100'', ''-ac'', ''2'',
        ''-map'', ''0:a'', ''-y'', ''output.mp3'']"
proof (intro conjI)
  show "500 \<notin> set bitrateOptions" by (simp add: bitrateOptions_def)
  show "resolve ''custom'' 500 44100 2 =
       Inr \<lparr>bitrate_params = 500, sampleRate_params = Some 44100, channels_params = Some 2\<rparr>"
    by (simp add: resolve_def)
  show "buildArgs \<lparr>bitrate_params = 500, sampleRate_params = Some 44100, channels_params = Some 2\<rparr> =
       [''-i'', ''input.mp3'', ''-b:a'', ''500k'', ''-ar'', ''44100'', ''-ac'', ''2'',
        ''-map'', ''0:a'', ''-y'', ''output.mp3'']"
    by (simp add: buildArgs_def truthy_def toString_eval)
qed

text \<open>
  Claim C6, as the code has it. The estimated size is the product
  \<open>bitrate * 125 * duration\<close> rounded to an integer by \<open>Math.round\<close> (the product
  itself for a whole number of seconds), and the estimated ratio and the achieved
  saving are \<open>Math.round((1 - bytes / originalBytes) * 100)\<close>, each operation being
  the one of JavaScript numbers. The percentages are signed: a negative one is shown
  as an increase of its magnitude, not as 0. So are the figures the estimate block shows,
  from the metadata of the file and the resolved bit rate. A 10,485,760-byte,
  240-second file at 128 kbps gives 3,840,000 and 63; an output of 17 bytes for an
  original of 40 gives 57, the doubles making 57.49999999999999 of the exact 57.5; 128
  kbps over 240.00571875 seconds (the double nearest to it) gives 3,840,092, the double
  of the product being 3840091.5; an empty original gives the ratio \<open>-Infinity\<close>,
  shown as \<open>+Infinity%\<close>.
\<close>

theorem estimate_and_saving_figures:
  "estimatedSize br d = Math_round (multiply (multiply (Num (of_int br)) (Num 125)) d)
   \<and> (\<bar>br * 125\<bar> < 2 ^ 53 \<and> \<bar>br * 125 * n\<bar> < 2 ^ 53 \<longrightarrow>
        estimatedSize br (Num (of_int n)) = Num (of_int (br * 125 * n)))
   \<and> compressionRatio est sz =
       Math_round (multiply (subtract (Num 1) (divideBy est (Num (real sz)))) (Num 100))
   \<and> savedPercent out sz =
       Math_round (multiply (subtract (Num 1) (divideBy (Num (real out)) (Num (real sz))))
         (Num 100))
   \<and> (compressionRatio est sz = Num (of_int k) \<and> k < 0 \<longrightarrow>
        ratioDisplay (compressionRatio est sz) = (''negative'', ''+'' @ toString (- k) @ ''%''))
   \<and> (savedPercent out sz = Num (of_int k) \<and> k < 0 \<longrightarrow>
        savedDisplay t (savedPercent out sz) =
          (t ''increased'', ''stat-value negative'', toString (- k) @ ''%''))
   \<and> (estimateBlock s = Some (est', shown) \<longrightarrow>
        (\<exists>fi p. fileInfo s = Some fi
           \<and> resolve (selectedPreset s) (customBitrate s) (customSampleRate s) (customChannels s)
               = Inr p
           \<and> est' = Math_round (multiply (multiply (Num (of_int (bitrate_params p))) (Num 125))
                       (duration fi))
           \<and> shown = ratioDisplay
               (Math_round (multiply (subtract (Num 1) (divideBy est' (Num (real (size_info fi)))))
                  (Num 100)))))
   \<and> estimatedSize 128 (Num 240) = Num 3840000
   \<and> compressionRatio (Num 3840000) 10485760 = Num 63
   \<and> estimateBlock exampleState = Some (Num 3840000, ''positive'', ''-63%'')
   \<and> savedPercent 17 40 = Num 57
   \<and> estimatedSize 128 (Num (8444450511947563 / 35184372088832)) = Num 3840092
   \<and> estimateBlock emptyFileState = Some (Num 3840000, ''negative'', ''+Infinity%'')"
proof (intro conjI impI)
  show "estimatedSize br d = Math_round (multiply (multiply (Num (of_int br)) (Num 125)) d)"
    by (simp add: estimatedSize_def)
next
  assume "\<bar>br * 125\<bar> < 2 ^ 53 \<and> \<bar>br * 125 * n\<bar> < 2 ^ 53"
  then have "\<bar>br * 125\<bar> < 2 ^ 53" and "\<bar>br * 125 * n\<bar> < 2 ^ 53" by simp_all
  then show "estimatedSize br (Num (of_int n)) = Num (of_int (br * 125 * n))"
    by (rule estimatedSize_integral)
next
  show "compressionRatio est sz =
       Math_round (multiply (subtract (Num 1) (divideBy est (Num (real sz)))) (Num 100))"
    by (simp add: compressionRatio_def)
next
  show "savedPercent out sz =
       Math_round (multiply (subtract (Num 1) (divideBy (Num (real out)) (Num (real sz))))
         (Num 100))"
    by (simp add: savedPercent_def)
next
  assume "compressionRatio est sz = Num (of_int k) \<and> k < 0"
  then show "ratioDisplay (compressionRatio est sz) =
      (''negative'', ''+'' @ toString (- k) @ ''%'')"
    by (simp add: ratioDisplay_def abs_if)
next
  assume "savedPercent out sz = Num (of_int k) \<and> k < 0"
  then show "savedDisplay t (savedPercent out sz) =
          (t ''increased'', ''stat-value negative'', toString (- k) @ ''%'')"
    by (simp add: savedDisplay_def abs_if)
next
  assume "estimateBlock s = Some (est', shown)"
  then have "\<exists>fi p. fileInfo s = Some fi
           \<and> resolve (selectedPreset s) (customBitrate s) (customSampleRate s) (customChannels s) = Inr p
           \<and> est' = estimatedSize (bitrate_params p) (duration fi)
           \<and> shown = ratioDisplay (compressionRatio est' (size_info fi))"
    by (rule estimateBlock_Some)
  then show "\<exists>fi p. fileInfo s = Some fi
           \<and> resolve (selectedPreset s) (customBitrate s) (customSampleRate s) (customChannels s)
               = Inr p
           \<and> est' = Math_round (multiply (multiply (Num (of_int (bitrate_params p))) (Num 125))
                       (duration fi))
           \<and> shown = ratioDisplay
               (Math_round (multiply (subtract (Num 1) (divideBy est' (Num (real (size_info fi)))))
                  (Num 100)))"
    unfolding estimatedSize_def compressionRatio_def .
next
  show "estimatedSize 128 (Num 240) = Num 3840000" by (rule estimatedSize_example)
next
  show "compressionRatio (Num 3840000) 10485760 = Num 63" by (rule compressionRatio_example)
next
  show "estimateBlock exampleState = Some (Num 3840000, ''positive'', ''-63%'')"
    by (rule estimateBlock_example)
next
  show "savedPercent 17 40 = Num 57" by (rule savedPercent_rounded)
next
  show "estimatedSize 128 (Num (8444450511947563 / 35184372088832)) = Num 3840092"
    by (rule estimatedSize_rounded)
next
  show "estimateBlock emptyFileState = Some (Num 3840000, ''negative'', ''+Infinity%'')"
    by (rule estimateBlock_empty)
qed

theorem estimate_and_saving_figures_witness:
  "\<bar>128 * 125 :: int\<bar> < 2 ^ 53 \<and> \<bar>128 * 125 * 240 :: int\<bar> < 2 ^ 53
   \<and> estimatedSize 128 (Num (of_int 240)) = Num (of_int (128 * 125 * 240))
   \<and> compressionRatio (Num 2000) 1000 = Num (of_int (- 100)) \<and> (- 100 :: int) < 0
   \<and> ratioDisplay (compressionRatio (Num 2000) 1000) = (''negative'', ''+100%'')
   \<and> savedPercent 47 40 = Num (of_int (- 18)) \<and> (- 18 :: int) < 0
   \<and> savedDisplay translate (savedPercent 47 40) =
       (''increased'', ''stat-value negative'', ''18%'')
   \<and> estimateBlock exampleState = Some (Num 3840000, ''positive'', ''-63%'')
   \<and> (\<exists>fi. fileInfo exampleState = Some fi
          \<and> Num 3840000 =
              Math_round (multiply (multiply (Num (of_int 128)) (Num 125)) (duration fi))
          \<and> (''positive'', ''-63%'') =
              ratioDisplay (Math_round (multiply
                (subtract (Num 1) (divideBy (Num 3840000) (Num (real (size_info fi)))))
                (Num 100))))"
proof -
  note inst = estimate_and_saving_figures [where br = 128 and n = 240 and est = "Num 2000"
      and sz = 1000 and k = "- 100" and s = exampleState and est' = "Num 3840000"
      and shown = "(''positive'', ''-63%'')"]
  note inst' = estimate_and_saving_figures [where out = 47 and sz = 40 and k = "- 18"
      and t = translate]
  have i1: "\<bar>128 * 125 :: int\<bar> < 2 ^ 53" and i2: "\<bar>128 * 125 * 240 :: int\<bar> < 2 ^ 53"
    by simp_all
  have i3: "estimatedSize 128 (Num (of_int 240)) = Num (of_int (128 * 125 * 240))"
    by (rule inst [THEN conjunct2, THEN conjunct1, THEN mp]) (intro conjI i1 i2)
  have c: "compressionRatio (Num 2000) 1000 = Num (of_int (- 100))"
    by (simp add: compressionRatio_def double_int round_half_up_def)
  have n: "(- 100 :: int) < 0" by simp
  have "ratioDisplay (compressionRatio (Num 2000) 1000) =
      (''negative'', ''+'' @ toString (- (- 100)) @ ''%'')"
    by (rule inst [THEN conjunct2, THEN conjunct2, THEN conjunct2, THEN conjunct2,
          THEN conjunct1, THEN mp]) (intro conjI c n)
  then have 1: "ratioDisplay (compressionRatio (Num 2000) 1000) = (''negative'', ''+100%'')"
    by (simp add: toString_eval)
  have v: "savedPercent 47 40 = Num (of_int (- 18))"
    using savedPercent_negative by simp
  have n': "(- 18 :: int) < 0" by simp
  have "savedDisplay translate (savedPercent 47 40) =
      (translate ''increased'', ''stat-value negative'', toString (- (- 18)) @ ''%'')"
    by (rule inst' [THEN conjunct2, THEN conjunct2, THEN conjunct2, THEN conjunct2,
          THEN conjunct2, THEN conjunct1, THEN mp]) (intro conjI v n')
  then have 2: "savedDisplay translate (savedPercent 47 40) =
       (''increased'', ''stat-value negative'', ''18%'')"
    by (simp add: toString_eval translate_def)
  have b: "estimateBlock exampleState = Some (Num 3840000, ''positive'', ''-63%'')"
    by (rule estimateBlock_example)
  have "\<exists>fi p. fileInfo exampleState = Some fi
           \<and> resolve (selectedPreset exampleState) (customBitrate exampleState)
                (customSampleRate exampleState) (customChannels exampleState) = Inr p
           \<and> Num 3840000 =
               Math_round (multiply (multiply (Num (of_int (bitrate_params p))) (Num 125))
                 (duration fi))
           \<and> (''positive'', ''-63%'') = ratioDisplay
               (Math_round (multiply
                  (subtract (Num 1) (divideBy (Num 3840000) (Num (real (size_info fi)))))
                  (Num 100)))"
    by (rule inst [THEN conjunct2, THEN conjunct2, THEN conjunct2, THEN conjunct2,
          THEN conjunct2, THEN conjunct2, THEN conjunct1, THEN mp, OF b])
  then obtain fi p where fi: "fileInfo exampleState = Some fi"
    and r: "resolve (selectedPreset exampleState) (customBitrate exampleState)
                (customSampleRate exampleState) (customChannels exampleState) = Inr p"
    and e: "Num 3840000 =
               Math_round (multiply (multiply (Num (of_int (bitrate_params p))) (Num 125))
                 (duration fi))"
    and d: "(''positive'', ''-63%'') = ratioDisplay
               (Math_round (multiply
                  (subtract (Num 1) (divideBy (Num 3840000) (Num (real (size_info fi)))))
                  (Num 100)))"
    by blast
  have "selectedPreset exampleState = ''medium''"
    by (simp add: exampleState_def readyState_def initialState_def)
  with r have "p = \<lparr>bitrate_params = 128, sampleRate_params = Some 44100,
      channels_params = Some 2\<rparr>"
    by (simp add: resolve_medium)
  then have bp: "bitrate_params p = 128" by simp
  from e have e': "Num 3840000 =
      Math_round (multiply (multiply (Num (of_int 128)) (Num 125)) (duration fi))"
    unfolding bp .
  from fi e' d have x: "\<exists>fi. fileInfo exampleState = Some fi
          \<and> Num 3840000 =
              Math_round (multiply (multiply (Num (of_int 128)) (Num 125)) (duration fi))
          \<and> (''positive'', ''-63%'') =
              ratioDisplay (Math_round (multiply
                (subtract (Num 1) (divideBy (Num 3840000) (Num (real (size_info fi)))))
                (Num 100)))"
    by blast
  show ?thesis by (intro conjI i1 i2 i3 c n 1 v n' 2 b x)
qed

text \<open>
  Claim C6 as stated fails where the product is not an integer: a file of 180.0001
  seconds (the double nearest to it, \<open>6333190494426969 / 2 ^ 45\<close>) at 128 kbps has a
  product between 2,880,001 and 2,880,002, and the estimated size 2,880,002.
\<close>

theorem estimatedSize_is_rounded:
  "estimatedSize 128 (Num (6333190494426969 / 35184372088832)) = Num 2880002
   \<and> 2880001 < (128 * 125 * (6333190494426969 / 35184372088832) :: real)
   \<and> (128 * 125 * (6333190494426969 / 35184372088832) :: real) < 2880002"
proof -
  have a: "multiply (Num (of_int 128)) (Num 125) = Num 16000"
    by (simp add: double_int)
  have b: "multiply (Num 16000) (Num (6333190494426969 / 35184372088832)) =
      Num (6184756342213837 / 2147483648)"
    using double_eval [of 21 "16000 * (6333190494426969 / 35184372088832)" 6184756342213837]
    by (simp add: round_even_eval)
  have d: "round_half_up (6184756342213837 / 2147483648) = 2880002"
    by (simp add: round_half_up_def)
  have e: "estimatedSize 128 (Num (6333190494426969 / 35184372088832)) = Num 2880002"
    unfolding estimatedSize_def a b by (simp add: d)
  show ?thesis by (intro conjI e) simp_all
qed

text \<open>
  Claim C7. Whenever the extraction resolves with a file info whose duration is
  positive, the reported duration is the one the metadata load gave, the reported size
  is the size of the file, and the reported bit rate is
  \<open>Math.round(size * 8 / duration / 1000)\<close> as JavaScript computes it: the product
  and each of the two quotients is the exact result rounded to the nearest double, and
  \<open>Math.round\<close> gives the nearest integer, the larger one at a tie. For a file
  below \<open>2 ^ 50\<close> bytes and a finite duration the product is exact, so that the bit
  rate is the rounding of the double of \<open>q / 1000\<close>, where \<open>q\<close> is the double of
  \<open>size * 8 / duration\<close> (and \<open>Infinity\<close> if that quotient is beyond the doubles).
\<close>

theorem parseAudioInfo_bitrate:
  assumes "fst (parseAudioInfo t env f) = Inr info" and "greaterThanZero (duration info)"
  shows "loadMetadata env f = Some (duration info)
         \<and> size_info info = size_file f
         \<and> bitrate_info info =
             Math_round (divideBy (divideBy (multiply (Num (real (size_info info))) (Num 8))
               (duration info)) (Num 1000))
         \<and> (size_info info < 2 ^ 50 \<and> duration info = Num d \<longrightarrow>
              bitrate_info info =
                (case double (real (size_info info) * 8 / d) of
                   Num q \<Rightarrow> Math_round (double (q / 1000))
                 | v \<Rightarrow> v))"
proof -
  from parseAudioInfo_coarse [OF assms(1)]
  have l: "loadMetadata env f = Some (duration info)"
    and s: "size_info info = size_file f"
    and b: "bitrate_info info = originalBitrate (size_file f) (duration info)"
    by simp_all
  have b': "bitrate_info info =
      Math_round (divideBy (divideBy (multiply (Num (real (size_info info))) (Num 8))
        (duration info)) (Num 1000))"
    unfolding b s originalBitrate_def ..
  have x: "bitrate_info info =
      (case double (real (size_info info) * 8 / d) of
         Num q \<Rightarrow> Math_round (double (q / 1000))
       | v \<Rightarrow> v)" if small: "size_info info < 2 ^ 50" and fin: "duration info = Num d"
  proof -
    from small have "int (size_info info) * 8 < 2 ^ 50 * 8"
      by simp
    then have "\<bar>int (size_info info) * 8\<bar> < 2 ^ 53" by simp
    then have "double (of_int (int (size_info info) * 8)) = Num (of_int (int (size_info info) * 8))"
      by (rule double_of_int)
    then have m: "multiply (Num (real (size_info info))) (Num 8) = Num (real (size_info info) * 8)"
      by simp
    from assms(2) fin have pos: "0 < d" by simp
    show ?thesis
      unfolding b' m fin using pos
      by (cases "double (real (size_info info) * 8 / d)") simp_all
  qed
  from l s b' x show ?thesis by blast
qed

theorem parseAudioInfo_bitrate_witness:
  "fst (parseAudioInfo translate browserClip clipFile) =
      Inr \<lparr>name = ''clip.mp3'', size_info = 1000,
           duration = Num (5764607523034235 / 9007199254740992), bitrate_info = Num 13,
           sampleRate_info = 48000, channels_info = 1\<rparr>
   \<and> greaterThanZero (Num (5764607523034235 / 9007199254740992))
   \<and> loadMetadata browserClip clipFile = Some (Num (5764607523034235 / 9007199254740992))
   \<and> Num 13 =
       Math_round (divideBy (divideBy (multiply (Num (real 1000)) (Num 8))
         (Num (5764607523034235 / 9007199254740992))) (Num 1000))
   \<and> (1000::nat) < 2 ^ 50
   \<and> Num 13 =
       (case double (real 1000 * 8 / (5764607523034235 / 9007199254740992)) of
          Num q \<Rightarrow> Math_round (double (q / 1000))
        | v \<Rightarrow> v)
   \<and> double (real 1000 * 8 / (5764607523034235 / 9007199254740992)) = Num 12500
   \<and> double (12500 / 1000) = Num (25 / 2)
   \<and> real 1000 * 8 / (5764607523034235 / 9007199254740992) / 1000 < 25 / 2"
proof -
  let ?d = "5764607523034235 / 9007199254740992 :: real"
  let ?info = "\<lparr>name = ''clip.mp3'', size_info = 1000, duration = Num ?d, bitrate_info = Num 13,
           sampleRate_info = 48000, channels_info = 1\<rparr>"
  have sz: "size_file clipFile = 1000" by (simp add: size_file_def clipFile_def)
  have r: "fst (parseAudioInfo translate browserClip clipFile) = Inr ?info"
  proof -
    have "parseAudioInfo translate browserClip clipFile =
      (Inr \<lparr>name = name_file clipFile, size_info = size_file clipFile, duration = Num ?d,
           bitrate_info = originalBitrate (size_file clipFile) (Num ?d),
           sampleRate_info = 48000, channels_info = 1\<rparr>, [])"
      by (rule parseAudioInfo_decoded) (simp_all add: browserClip_def)
    then show ?thesis
      by (simp add: sz originalBitrate_rounded) (simp add: clipFile_def)
  qed
  have p: "greaterThanZero (Num ?d)" by simp
  have p': "greaterThanZero (duration ?info)" by simp
  note inst = parseAudioInfo_bitrate [OF r p', where d = ?d]
  from inst have l: "loadMetadata browserClip clipFile = Some (Num ?d)"
    by simp
  from inst have "bitrate_info ?info =
      Math_round (divideBy (divideBy (multiply (Num (real (size_info ?info))) (Num 8))
        (duration ?info)) (Num 1000))"
    by (rule conjunct1 [OF conjunct2 [OF conjunct2]])
  then have b: "Num 13 =
       Math_round (divideBy (divideBy (multiply (Num (real 1000)) (Num 8)) (Num ?d)) (Num 1000))"
    by (simp only: FileInfo.simps)
  have n: "(1000::nat) < 2 ^ 50" by simp
  from inst have "size_info ?info < 2 ^ 50 \<and> duration ?info = Num ?d \<longrightarrow>
      bitrate_info ?info =
        (case double (real (size_info ?info) * 8 / ?d) of
           Num q \<Rightarrow> Math_round (double (q / 1000))
         | v \<Rightarrow> v)"
    by (rule conjunct2 [OF conjunct2 [OF conjunct2]])
  then have c: "Num 13 =
       (case double (real 1000 * 8 / ?d) of
          Num q \<Rightarrow> Math_round (double (q / 1000))
        | v \<Rightarrow> v)"
    using n by (simp only: FileInfo.simps simp_thms)
  have q: "double (real 1000 * 8 / ?d) = Num 12500"
    using double_eval [of 13 "8000 / ?d" 6871947673600000] by (simp add: round_even_eval)
  have q': "double (12500 / 1000) = Num (25 / 2)"
    using double_dyadic [of 25 "- 1"] by simp
  have u: "real 1000 * 8 / ?d / 1000 < 25 / 2" by simp
  show ?thesis by (intro conjI r p l b n c q q' u)
qed

text \<open>
  Claim C8. For every preset of the catalogue other than the custom one, selecting its
  id resolves to the preset's own bit rate, sample rate and channel count, whatever the
  stored custom values are; the file metadata is no argument of the resolution.
\<close>

theorem resolve_preset_verbatim:
  "\<forall>p \<in> set presets. id_preset p \<noteq> ''custom'' \<longrightarrow>
     resolve (id_preset p) cb cs cc =
       Inr \<lparr>bitrate_params = bitrate p, sampleRate_params = sampleRate p,
            channels_params = channels p\<rparr>"
  unfolding presets_def resolve_def by simp

theorem resolve_preset_verbatim_witness:
  "presets ! 5 \<in> set presets \<and> id_preset (presets ! 5) \<noteq> ''custom'' \<and>
   resolve ''voice'' 320 16000 1 =
     Inr \<lparr>bitrate_params = 64, sampleRate_params = Some 22050, channels_params = Some 1\<rparr>"
proof -
  have m: "presets ! 5 \<in> set presets" by (rule nth_mem) (simp add: presets_def)
  have n: "id_preset (presets ! 5) \<noteq> ''custom''" by (simp add: presets_voice)
  have "resolve (id_preset (presets ! 5)) 320 16000 1 =
       Inr \<lparr>bitrate_params = bitrate (presets ! 5), sampleRate_params = sampleRate (presets ! 5),
            channels_params = channels (presets ! 5)\<rparr>"
    by (rule resolve_preset_verbatim [of 320 16000 1, THEN bspec, OF m, THEN mp, OF n])
  then have "resolve ''voice'' 320 16000 1 =
     Inr \<lparr>bitrate_params = 64, sampleRate_params = Some 22050, channels_params = Some 1\<rparr>"
    by (simp add: presets_voice)
  with m n show ?thesis by simp
qed

text \<open>
  Claim C9, at a file whose metadata loads and whose content is read but does not
  decode: the promise resolves with the default sample rate and channel count while
  the audio context opened for the decode is still open. (The object URL has been
  released.) Only the branch where the decode succeeds closes the context.
\<close>

theorem parseAudioInfo_context_left_open:
  "parseAudioInfo translate browserDecodeFails sampleFile =
     (Inr \<lparr>name = ''song.mp3'', size_info = 3000, duration = Num 2, bitrate_info = Num 12,
           sampleRate_info = 44100, channels_info = 2\<rparr>,
      [AudioCtx])"
proof -
  have "parseAudioInfo translate browserDecodeFails sampleFile =
     (Inr \<lparr>name = name_file sampleFile, size_info = size_file sampleFile, duration = Num 2,
           bitrate_info = originalBitrate (size_file sampleFile) (Num 2),
           sampleRate_info = 44100, channels_info = 2\<rparr>, [AudioCtx])"
    by (rule parseAudioInfo_decode_error) (simp_all add: browserDecodeFails_def)
  then show ?thesis
    by (simp add: size_sampleFile originalBitrate_sample) (simp add: sampleFile_def)
qed


end
